theory Spec2Isabelle
  imports Main "HOL-Library.Sublist"
begin

section \<open>Strings of the Go runtime\<close>

text \<open>
  A Go string is a sequence of bytes; it is modelled as a \<open>char list\<close>. The functions of
  the standard library that the package calls are written out for the arguments the package
  gives them. \<open>strings.HasPrefix\<close> is \<^const>\<open>prefix\<close> and \<open>strings.Contains\<close> is
  \<^const>\<open>sublist\<close>.
\<close>

definition is_digit :: "char \<Rightarrow> bool" where
  "is_digit c = (c \<in> set ''0123456789'')"

text \<open>
  A run-time panic of the Go program: an index or a slice expression out of range, a nil
  pointer dereferenced, a nil function started, a send on a closed channel. A panic in a
  goroutine that nothing recovers ends the process.
\<close>

datatype panic = IndexOutOfRange | SliceBoundsOutOfRange | NilDereference | NilFunc | SendOnClosed

text \<open>The index expression \<open>xs[i]\<close>.\<close>

definition index :: "'a list \<Rightarrow> int \<Rightarrow> panic + 'a" where
  "index xs i = (if 0 \<le> i \<and> nat i < length xs then Inr (xs ! nat i) else Inl IndexOutOfRange)"

subsection \<open>\<open>strings.TrimSpace\<close>\<close>

text \<open>
  \<open>unicode.IsSpace\<close> holds of the six ASCII characters tab, newline, vertical tab, form
  feed, carriage return and space, of U+0085 and U+00A0, and of the code points of category
  Z and property Pattern_White_Space: U+1680, U+2000 to U+200A, U+2028, U+2029, U+202F,
  U+205F and U+3000. The list holds their UTF-8 encodings. A string starts (ends) with a white
  space rune exactly when it starts (ends) with one of these encodings: each begins with a
  byte that starts a rune, so decoding at the front reads it whole and decoding from the back
  finds its first byte.
\<close>

definition unicode_space :: "string list" where
  "unicode_space =
     [[CHR 0x09], [CHR 0x0A], [CHR 0x0B], [CHR 0x0C], [CHR 0x0D], [CHR 0x20],
      [CHR 0xC2, CHR 0x85], [CHR 0xC2, CHR 0xA0],
      [CHR 0xE1, CHR 0x9A, CHR 0x80],
      [CHR 0xE2, CHR 0x80, CHR 0x80], [CHR 0xE2, CHR 0x80, CHR 0x81],
      [CHR 0xE2, CHR 0x80, CHR 0x82], [CHR 0xE2, CHR 0x80, CHR 0x83],
      [CHR 0xE2, CHR 0x80, CHR 0x84], [CHR 0xE2, CHR 0x80, CHR 0x85],
      [CHR 0xE2, CHR 0x80, CHR 0x86], [CHR 0xE2, CHR 0x80, CHR 0x87],
      [CHR 0xE2, CHR 0x80, CHR 0x88], [CHR 0xE2, CHR 0x80, CHR 0x89],
      [CHR 0xE2, CHR 0x80, CHR 0x8A],
      [CHR 0xE2, CHR 0x80, CHR 0xA8], [CHR 0xE2, CHR 0x80, CHR 0xA9],
      [CHR 0xE2, CHR 0x80, CHR 0xAF],
      [CHR 0xE2, CHR 0x81, CHR 0x9F],
      [CHR 0xE3, CHR 0x80, CHR 0x80]]"

definition leading_space :: "string \<Rightarrow> string option" where
  "leading_space s = find (\<lambda>t. prefix t s) unicode_space"

definition trailing_space :: "string \<Rightarrow> string option" where
  "trailing_space s = find (\<lambda>t. suffix t s) unicode_space"

function TrimLeftSpace :: "string \<Rightarrow> string" where
  "TrimLeftSpace s =
     (case leading_space s of
        None \<Rightarrow> s
      | Some t \<Rightarrow> TrimLeftSpace (drop (length t) s))"
  by pat_completeness auto
termination
proof (relation "measure length")
  show "wf (measure length)" by simp
next
  fix s t
  assume "leading_space s = Some t"
  then have "t \<in> set unicode_space" and "prefix t s"
    by (auto simp: leading_space_def find_Some_iff)
  then have "t \<noteq> []" and "length t \<le> length s"
    by (auto simp: unicode_space_def prefix_length_le)
  then show "(drop (length t) s, s) \<in> measure length"
    by (cases t) auto
qed

function TrimRightSpace :: "string \<Rightarrow> string" where
  "TrimRightSpace s =
     (case trailing_space s of
        None \<Rightarrow> s
      | Some t \<Rightarrow> TrimRightSpace (take (length s - length t) s))"
  by pat_completeness auto
termination
proof (relation "measure length")
  show "wf (measure length)" by simp
next
  fix s t
  assume "trailing_space s = Some t"
  then have "t \<in> set unicode_space" and "suffix t s"
    by (auto simp: trailing_space_def find_Some_iff)
  then have "t \<noteq> []" and "length t \<le> length s"
    by (auto simp: unicode_space_def suffix_length_le)
  then show "(take (length s - length t) s, s) \<in> measure length"
    by (cases t) auto
qed

declare TrimLeftSpace.simps [simp del] TrimRightSpace.simps [simp del]

definition TrimSpace :: "string \<Rightarrow> string" where
  "TrimSpace s = TrimRightSpace (TrimLeftSpace s)"

text \<open>\<open>strings.Trim\<close> with a cutset of ASCII characters.\<close>

definition Trim :: "string \<Rightarrow> string \<Rightarrow> string" where
  "Trim s cutset =
     rev (dropWhile (\<lambda>c. c \<in> set cutset) (rev (dropWhile (\<lambda>c. c \<in> set cutset) s)))"

subsection \<open>\<open>strings.Split\<close> and \<open>strings.Join\<close>\<close>

text \<open>
  \<open>strings.Split\<close> with a separator of one byte: the pieces between the occurrences of the
  separator, one more than there are occurrences, so never the empty slice.
\<close>

fun split_from :: "char \<Rightarrow> string \<Rightarrow> string \<Rightarrow> string list" where
  "split_from sep cur [] = [cur]"
| "split_from sep cur (c # cs) =
     (if c = sep then cur # split_from sep [] cs else split_from sep (cur @ [c]) cs)"

definition Split :: "string \<Rightarrow> char \<Rightarrow> string list" where
  "Split s sep = split_from sep [] s"

fun Join :: "string list \<Rightarrow> string \<Rightarrow> string" where
  "Join [] sep = []"
| "Join [x] sep = x"
| "Join (x # y # ys) sep = x @ sep @ Join (y # ys) sep"

subsection \<open>\<open>strconv.Atoi\<close> and \<open>strconv.Itoa\<close>\<close>

definition digit_val :: "char \<Rightarrow> nat" where
  "digit_val c = length (takeWhile (\<lambda>d. d \<noteq> c) ''0123456789'')"

fun parse_digits :: "nat \<Rightarrow> string \<Rightarrow> nat option" where
  "parse_digits acc [] = Some acc"
| "parse_digits acc (c # cs) =
     (if is_digit c then parse_digits (acc * 10 + digit_val c) cs else None)"

text \<open>
  \<open>Atoi\<close> accepts an optional sign and at least one decimal digit, and fails on a value
  that does not fit the 64-bit \<open>int\<close>.
\<close>

definition Atoi :: "string \<Rightarrow> int option" where
  "Atoi s =
     (let neg = (s \<noteq> [] \<and> hd s = CHR ''-'');
          body = (if s \<noteq> [] \<and> (hd s = CHR ''-'' \<or> hd s = CHR ''+'') then tl s else s)
      in if body = [] then None
         else (case parse_digits 0 body of
                 None \<Rightarrow> None
               | Some n \<Rightarrow>
                   (let v = (if neg then - int n else int n)
                    in if - (2 ^ 63) \<le> v \<and> v < 2 ^ 63 then Some v else None)))"

function nat_dec :: "nat \<Rightarrow> string" where
  "nat_dec n =
     (if n < 10 then [''0123456789'' ! n]
      else nat_dec (n div 10) @ [''0123456789'' ! (n mod 10)])"
  by pat_completeness auto
termination
  by (relation "measure id") auto

declare nat_dec.simps [simp del]

definition Itoa :: "int \<Rightarrow> string" where
  "Itoa i = (if i < 0 then CHR ''-'' # nat_dec (nat (- i)) else nat_dec (nat i))"

section \<open>Typed events of wpa_supplicant\<close>

text \<open>
  Every event type of the package embeds \<open>baseEvent\<close>, whose only field is the raw message;
  \<open>OnDisconnectedEvent\<close> adds the rendered reason. The interface \<open>WPASupplicantEvent\<close>
  is the sum of the eight implementations.
\<close>

datatype WPASupplicantEvent =
    OnConnectedEvent string
  | OnDisconnectedEvent string string
  | OnNotFoundEvent string
  | OnScanFailedEvent string
  | OnScanStartedEvent string
  | OnScanResultsEvent string
  | OnScanEvent string
  | OnEvent string

fun WPAString :: "WPASupplicantEvent \<Rightarrow> string" where
  "WPAString (OnConnectedEvent raw) = raw"
| "WPAString (OnDisconnectedEvent raw r) = raw"
| "WPAString (OnNotFoundEvent raw) = raw"
| "WPAString (OnScanFailedEvent raw) = raw"
| "WPAString (OnScanStartedEvent raw) = raw"
| "WPAString (OnScanResultsEvent raw) = raw"
| "WPAString (OnScanEvent raw) = raw"
| "WPAString (OnEvent raw) = raw"

subsection \<open>The disconnect reason\<close>

text \<open>
  \<open>dre\<close> is the regular expression \<^verbatim>\<open>CTRL-EVENT-DISCONNECTED.*?reason=([0-9]+)\<close>.
  Go's \<open>FindStringSubmatch\<close> returns the leftmost match, and among the matches that start
  there the one a backtracking matcher reaches first. The matcher below is that search for
  this expression: \<open>dre_group\<close> is the tail \<^verbatim>\<open>reason=([0-9]+)\<close> (the group is greedy and
  nothing follows it, so it is the longest run of digits), \<open>dre_lazy\<close> is \<^verbatim>\<open>.*?\<close> followed
  by the tail (the tail is tried before another character is consumed, and \<^verbatim>\<open>.\<close> does not
  match a newline), \<open>dre_at\<close> matches the whole expression at the start of its argument and
  \<open>dre_find\<close> tries every start from left to right. The result is the text of group 1.
\<close>

definition dre_group :: "string \<Rightarrow> string option" where
  "dre_group s =
     (if prefix ''reason='' s \<and> takeWhile is_digit (drop 7 s) \<noteq> []
      then Some (takeWhile is_digit (drop 7 s)) else None)"

fun dre_lazy :: "string \<Rightarrow> string option" where
  "dre_lazy [] = dre_group []"
| "dre_lazy (c # cs) =
     (case dre_group (c # cs) of
        Some g \<Rightarrow> Some g
      | None \<Rightarrow> if c = CHR 0x0A then None else dre_lazy cs)"

definition dre_at :: "string \<Rightarrow> string option" where
  "dre_at s =
     (if prefix ''CTRL-EVENT-DISCONNECTED'' s then dre_lazy (drop 23 s) else None)"

fun dre_find :: "string \<Rightarrow> string option" where
  "dre_find [] = dre_at []"
| "dre_find (c # cs) =
     (case dre_at (c # cs) of Some g \<Rightarrow> Some g | None \<Rightarrow> dre_find cs)"

text \<open>\<open>found\<close> has two elements (the match and group 1) exactly when the search succeeds.\<close>

definition parseReason :: "string \<Rightarrow> string" where
  "parseReason msg = (case dre_find msg of None \<Rightarrow> ''0'' | Some g \<Rightarrow> g)"

definition commonReasonCodes :: "string \<rightharpoonup> string" where
  "commonReasonCodes = map_of
     [(''2'', ''invalid-auth''),
      (''3'', ''sta-left-ess''),
      (''4'', ''inactivity''),
      (''5'', ''ap-overloaded''),
      (''6'', ''class-2-nonauth''),
      (''7'', ''class-3-nonassoc''),
      (''8'', ''sta-left-bss''),
      (''9'', ''not-authenticated-responder''),
      (''10'', ''bad-power-cap''),
      (''11'', ''bad-channels''),
      (''14'', ''mic-failure''),
      (''15'', ''four-way-handshake-timeout''),
      (''16'', ''group-key-handshake-timeout''),
      (''17'', ''four-way-handshake-mismatch''),
      (''18'', ''invalid-group-cipher''),
      (''19'', ''invalid-pairwise-cipher''),
      (''20'', ''invalid-akmp''),
      (''21'', ''unsupported-rsn''),
      (''22'', ''invalid-rsn''),
      (''23'', ''8021x-auth-failed''),
      (''24'', ''cipher-rejcted-due-to-policy''),
      (''32'', ''qos''),
      (''33'', ''qos-bandwidth''),
      (''34'', ''noisy-channel-cant-ack''),
      (''35'', ''outside-txop-limits''),
      (''36'', ''peer-leaving-bss''),
      (''37'', ''peer-rejects-mechanism''),
      (''38'', ''peer-mechanism-needs-setup''),
      (''39'', ''peer-timeout''),
      (''45'', ''peer-cipher-suite-not-supported'')]"

text \<open>Reading a Go map at a key it does not hold gives the zero value, the empty string.\<close>

definition reason_label :: "string \<Rightarrow> string" where
  "reason_label code = (case commonReasonCodes code of None \<Rightarrow> [] | Some l \<Rightarrow> l)"

definition NewOnDisconnectedEvent :: "string \<Rightarrow> WPASupplicantEvent" where
  "NewOnDisconnectedEvent msg =
     (let reason = parseReason msg;
          sreason = reason_label reason
      in OnDisconnectedEvent msg (reason @ '':'' @ sreason))"

text \<open>\<open>Reason\<close> is a method of \<open>OnDisconnectedEvent\<close> only; the other cases are not reachable.\<close>

fun Reason :: "WPASupplicantEvent \<Rightarrow> string" where
  "Reason (OnDisconnectedEvent raw r) = r"
| "Reason _ = []"

subsection \<open>Classification of the unsolicited stream\<close>

text \<open>
  The body of the loop that \<open>NewWPASupplicantCtrl\<close> starts: one message of the unsolicited
  stream gives one event, by the chain of \<open>strings.HasPrefix\<close> tests in the order of the source.
\<close>

definition classify :: "string \<Rightarrow> WPASupplicantEvent" where
  "classify msg =
     (if prefix ''CTRL-EVENT-CONNECTED'' msg then OnConnectedEvent msg
      else if prefix ''CTRL-EVENT-DISCONNECTED'' msg then NewOnDisconnectedEvent msg
      else if prefix ''CTRL-EVENT-NETWORK-NOT-FOUND'' msg then OnNotFoundEvent msg
      else if prefix ''CTRL-EVENT-SCAN-FAILED'' msg then OnScanFailedEvent msg
      else if prefix ''CTRL-EVENT-SCAN-STARTED'' msg then OnScanStartedEvent msg
      else if prefix ''CTRL-EVENT-SCAN-RESULTS'' msg then OnScanResultsEvent msg
      else if prefix ''CTRL-EVENT-BSS-ADDED'' msg then OnScanEvent msg
      else OnEvent msg)"

text \<open>The loop itself: the events sent for the messages received, in order.\<close>

fun NewWPASupplicantCtrl_events :: "string list \<Rightarrow> WPASupplicantEvent list" where
  "NewWPASupplicantCtrl_events [] = []"
| "NewWPASupplicantCtrl_events (msg # msgs) = classify msg # NewWPASupplicantCtrl_events msgs"

text \<open>
  The classifier as the specification words it: a fixed ordered table of known prefixes, each
  with the variant it selects; the first prefix that matches decides, and a payload that
  matches none is the generic event.
\<close>

definition spec_known_prefixes :: "(string \<times> (string \<Rightarrow> WPASupplicantEvent)) list" where
  "spec_known_prefixes =
     [(''CTRL-EVENT-CONNECTED'', OnConnectedEvent),
      (''CTRL-EVENT-DISCONNECTED'', NewOnDisconnectedEvent),
      (''CTRL-EVENT-NETWORK-NOT-FOUND'', OnNotFoundEvent),
      (''CTRL-EVENT-SCAN-FAILED'', OnScanFailedEvent),
      (''CTRL-EVENT-SCAN-STARTED'', OnScanStartedEvent),
      (''CTRL-EVENT-SCAN-RESULTS'', OnScanResultsEvent),
      (''CTRL-EVENT-BSS-ADDED'', OnScanEvent)]"

definition spec_classify :: "string \<Rightarrow> WPASupplicantEvent" where
  "spec_classify msg =
     (case find (\<lambda>(p, mk). prefix p msg) spec_known_prefixes of
        Some (p, mk) \<Rightarrow> mk msg
      | None \<Rightarrow> OnEvent msg)"

section \<open>The control connection\<close>

subsection \<open>Errors\<close>

text \<open>
  An \<open>error\<close> of the package is the value \<open>ErrTimeout\<close>, which callers compare by
  identity, or a value made by \<open>errors.New\<close> (\<open>fmt.Errorf\<close> without \<open>%w\<close> makes one
  too), which has nothing but its text.
\<close>

datatype error = ErrTimeout | errorString string

fun Error :: "error \<Rightarrow> string" where
  "Error ErrTimeout = ''cmd timeout''"
| "Error (errorString s) = s"

subsection \<open>Channels\<close>

text \<open>
  A buffered channel of strings: the values sent and not yet received, whether it has been
  closed, and the capacity it was made with.
\<close>

record chan =
  queue :: "string list"
  is_closed :: bool
  capacity :: nat

definition make_chan :: "nat \<Rightarrow> chan" where
  "make_chan n = \<lparr>queue = [], is_closed = False, capacity = n\<rparr>"

definition close :: "chan \<Rightarrow> chan" where
  "close ch = ch\<lparr>is_closed := True\<rparr>"

text \<open>
  A send panics on a closed channel, goes through when the buffer has room, and otherwise
  would block: \<open>None\<close>.
\<close>

definition send :: "chan \<Rightarrow> string \<Rightarrow> panic + chan option" where
  "send ch m =
     (if is_closed ch then Inl SendOnClosed
      else if length (queue ch) < capacity ch then Inr (Some (ch\<lparr>queue := queue ch @ [m]\<rparr>))
      else Inr None)"

subsection \<open>The demultiplexer and its reader\<close>

text \<open>
  \<open>WPACtrl\<close>: the two channels, whether the context has been cancelled, and \<open>buf\<close>, the
  buffer that \<open>receiveLoop\<close> allocates once and reads every datagram into. The connection
  \<open>c\<close> is the environment: each call of \<open>Read\<close> and \<open>Write\<close> is given by its result.
\<close>

record WPACtrl =
  solicited :: chan
  unsolicited :: chan
  ctx_done :: bool
  buf :: string

definition NewWPACtrl :: WPACtrl where
  "NewWPACtrl =
     \<lparr>solicited = make_chan 1, unsolicited = make_chan 100, ctx_done = False,
      buf = replicate 4096 (CHR 0x00)\<rparr>"

text \<open>
  \<open>Read\<close> of a datagram connection: the datagram is copied to the front of the buffer, cut
  to the length of the buffer, and the rest of the buffer keeps what it held. A failed
  \<open>Read\<close> leaves the buffer alone.
\<close>

datatype read_result = Datagram string | ReadErr

definition conn_Read :: "string \<Rightarrow> string \<Rightarrow> nat \<times> string" where
  "conn_Read b msg = (let n = min (length b) (length msg) in (n, take n msg @ drop n b))"

text \<open>
  One turn of the loop of \<open>receiveLoop\<close>. The reader goes on (\<open>Continue\<close>), returns after
  the deferred closing of both channels (\<open>Return\<close>), waits for room in the event channel
  with the message in hand (\<open>Blocked\<close>), or panics. The buffer of the reader has 4096
  bytes at all times, so \<open>buf[0]\<close> and \<open>buf[2]\<close> are in range whatever the datagram is.
  The slice \<open>buf[3:n]\<close> panics when \<open>n < 3\<close>; \<open>buf[:n]\<close> cannot, \<open>n\<close> is at most
  the length of the buffer.
\<close>

datatype iter_result =
    Continue WPACtrl
  | Return WPACtrl
  | Blocked WPACtrl string
  | Panic panic

definition deferred_close :: "WPACtrl \<Rightarrow> WPACtrl" where
  "deferred_close wc = wc\<lparr>unsolicited := close (unsolicited wc), solicited := close (solicited wc)\<rparr>"

definition receive_iter :: "WPACtrl \<Rightarrow> read_result \<Rightarrow> iter_result" where
  "receive_iter wc r =
     (case r of
        ReadErr \<Rightarrow> Return (deferred_close wc)
      | Datagram msg \<Rightarrow>
          (let (n, b) = conn_Read (buf wc) msg;
               wc = wc\<lparr>buf := b\<rparr>
           in if ctx_done wc then Return (deferred_close wc)
              else if b ! 0 = CHR ''<'' then
                (if length b < 3 \<or> b ! 2 \<noteq> CHR ''>'' then Continue wc
                 else if n < 3 then Panic SliceBoundsOutOfRange
                 else (case send (unsolicited wc) (TrimSpace (drop 3 (take n b))) of
                         Inl p \<Rightarrow> Panic p
                       | Inr None \<Rightarrow> Blocked wc (TrimSpace (drop 3 (take n b)))
                       | Inr (Some ch) \<Rightarrow> Continue (wc\<lparr>unsolicited := ch\<rparr>)))
              else (case send (solicited wc) (TrimSpace (take n b)) of
                      Inl p \<Rightarrow> Panic p
                    | Inr None \<Rightarrow> Continue wc
                    | Inr (Some ch) \<Rightarrow> Continue (wc\<lparr>solicited := ch\<rparr>))))"

text \<open>
  \<open>receiveLoop\<close> over the results of the successive calls of \<open>Read\<close>. When the list
  is used up the reader waits in \<open>Read\<close>: \<open>Continue\<close>.
\<close>

fun receiveLoop :: "WPACtrl \<Rightarrow> read_result list \<Rightarrow> iter_result" where
  "receiveLoop wc [] = Continue wc"
| "receiveLoop wc (r # rs) =
     (case receive_iter wc r of
        Continue wc' \<Rightarrow> receiveLoop wc' rs
      | Return wc' \<Rightarrow> Return wc'
      | Blocked wc' m \<Rightarrow> Blocked wc' m
      | Panic p \<Rightarrow> Panic p)"

subsection \<open>Commands\<close>

text \<open>
  The \<open>select\<close> of \<open>Command\<close>, with the reader running beside it. \<open>rs\<close> are the results
  of the calls of \<open>Read\<close> that the reader gets through before the timer of the command
  fires. A reply in the channel is received; a closed and empty channel is received from with
  \<open>ok\<close> false; otherwise the command waits for the reader's next turn, and for the timer
  when the reader has nothing more to read or is itself blocked. Nothing takes an event from
  the event channel while the command waits: a reader that is blocked there stays blocked
  until the timer fires. A panic of the reader ends the process, and the command with it.
\<close>

fun await :: "WPACtrl \<Rightarrow> read_result list \<Rightarrow> (panic + error + string) \<times> WPACtrl" where
  "await wc rs =
     (case queue (solicited wc) of
        msg # q \<Rightarrow> (Inr (Inr msg), wc\<lparr>solicited := (solicited wc)\<lparr>queue := q\<rparr>\<rparr>)
      | [] \<Rightarrow>
          if is_closed (solicited wc) then (Inr (Inl (errorString ''failed'')), wc)
          else (case rs of
                  [] \<Rightarrow> (Inr (Inl ErrTimeout), wc)
                | r # rs' \<Rightarrow>
                    (case receive_iter wc r of
                       Continue wc' \<Rightarrow> await wc' rs'
                     | Return wc' \<Rightarrow> await wc' rs'
                     | Blocked wc' m \<Rightarrow> (Inr (Inl ErrTimeout), wc')
                     | Panic p \<Rightarrow> (Inl p, wc))))"

declare await.simps [simp del]

text \<open>
  \<open>Command\<close>: \<open>werr\<close> is the error of \<open>Write\<close>, if any. The result is the pair that the
  Go function returns, an error or a reply, unless the process has ended by a panic.
\<close>

definition Command ::
  "WPACtrl \<Rightarrow> string \<Rightarrow> error option \<Rightarrow> read_result list \<Rightarrow> (panic + error + string) \<times> WPACtrl"
where
  "Command wc cmd werr rs =
     (case werr of
        Some err \<Rightarrow> (Inr (Inl (errorString (''command error: '' @ Error err))), wc)
      | None \<Rightarrow> await wc rs)"

definition OkCommand ::
  "WPACtrl \<Rightarrow> string \<Rightarrow> error option \<Rightarrow> read_result list \<Rightarrow> (panic + error option) \<times> WPACtrl"
where
  "OkCommand wc cmd werr rs =
     (case Command wc cmd werr rs of
        (Inl p, wc') \<Rightarrow> (Inl p, wc')
      | (Inr (Inl err), wc') \<Rightarrow> (Inr (Some err), wc')
      | (Inr (Inr rsp), wc') \<Rightarrow>
          if rsp \<noteq> ''OK'' then (Inr (Some (errorString rsp)), wc') else (Inr None, wc'))"

definition FailCommand ::
  "WPACtrl \<Rightarrow> string \<Rightarrow> error option \<Rightarrow> read_result list \<Rightarrow> (panic + error + string) \<times> WPACtrl"
where
  "FailCommand wc cmd werr rs =
     (case Command wc cmd werr rs of
        (Inl p, wc') \<Rightarrow> (Inl p, wc')
      | (Inr (Inl err), wc') \<Rightarrow> (Inr (Inl err), wc')
      | (Inr (Inr rsp), wc') \<Rightarrow>
          if rsp = ''FAIL'' then (Inr (Inl (errorString rsp)), wc') else (Inr (Inr rsp), wc'))"

definition Attach :: "WPACtrl \<Rightarrow> error option \<Rightarrow> read_result list \<Rightarrow> (panic + error option) \<times> WPACtrl" where
  "Attach wc werr rs = OkCommand wc ''ATTACH'' werr rs"

definition Detach :: "WPACtrl \<Rightarrow> error option \<Rightarrow> read_result list \<Rightarrow> (panic + error option) \<times> WPACtrl" where
  "Detach wc werr rs = OkCommand wc ''DETACH'' werr rs"

text \<open>
  The event datagram as the specification words it: the first three bytes are \<open><\<close>, an
  ASCII digit and \<open>>\<close>.
\<close>

definition spec_is_event :: "string \<Rightarrow> bool" where
  "spec_is_event d =
     (3 \<le> length d \<and> d ! 0 = CHR ''<'' \<and> is_digit (d ! 1) \<and> d ! 2 = CHR ''>'')"

text \<open>
  What a turn of the reader hands to the event channel: the message is in the channel when the
  turn ends, or the reader holds it and waits for room.
\<close>

definition to_unsolicited :: "WPACtrl \<Rightarrow> iter_result \<Rightarrow> string \<Rightarrow> bool" where
  "to_unsolicited wc res m =
     (case res of
        Continue wc' \<Rightarrow> queue (unsolicited wc') = queue (unsolicited wc) @ [m]
      | Return wc' \<Rightarrow> False
      | Blocked wc' m' \<Rightarrow> m' = m
      | Panic p \<Rightarrow> False)"

text \<open>A string that neither starts nor ends with white space.\<close>

definition trimmed :: "string \<Rightarrow> bool" where
  "trimmed s = (leading_space s = None \<and> trailing_space s = None)"

subsection \<open>Network operations\<close>

record Network =
  ID :: string
  SSID :: string

text \<open>
  The loop of \<open>ListNetworks\<close> over the lines after the first: \<open>f[1]\<close> panics on a line
  without a tab.
\<close>

fun parse_networks :: "string list \<Rightarrow> panic + Network list" where
  "parse_networks [] = Inr []"
| "parse_networks (net # nets) =
     (let f = Split net (CHR 0x09)
      in case index f 0 of
           Inl p \<Rightarrow> Inl p
         | Inr f0 \<Rightarrow>
             (case index f 1 of
                Inl p \<Rightarrow> Inl p
              | Inr f1 \<Rightarrow>
                  (case parse_networks nets of
                     Inl p \<Rightarrow> Inl p
                   | Inr result \<Rightarrow> Inr (\<lparr>ID = f0, SSID = f1\<rparr> # result))))"

definition ListNetworks ::
  "WPACtrl \<Rightarrow> error option \<Rightarrow> read_result list \<Rightarrow> (panic + error + Network list) \<times> WPACtrl"
where
  "ListNetworks wc werr rs =
     (case FailCommand wc ''LIST_NETWORKS'' werr rs of
        (Inl p, wc') \<Rightarrow> (Inl p, wc')
      | (Inr (Inl err), wc') \<Rightarrow> (Inr (Inl err), wc')
      | (Inr (Inr rsp), wc') \<Rightarrow>
          (case parse_networks (tl (Split rsp (CHR 0x0A))) of
             Inl p \<Rightarrow> (Inl p, wc')
           | Inr result \<Rightarrow> (Inr (Inr result), wc')))"

definition AddNetwork ::
  "WPACtrl \<Rightarrow> error option \<Rightarrow> read_result list \<Rightarrow> (panic + error + string) \<times> WPACtrl"
where
  "AddNetwork wc werr rs = FailCommand wc ''ADD_NETWORK'' werr rs"

definition EnableNetwork ::
  "WPACtrl \<Rightarrow> string \<Rightarrow> error option \<Rightarrow> read_result list \<Rightarrow> (panic + error option) \<times> WPACtrl"
where
  "EnableNetwork wc network werr rs = OkCommand wc (''ENABLE_NETWORK '' @ network) werr rs"

text \<open>\<open>CHR 0x22\<close> is the double quote that \<open>SetSSID\<close> and \<open>SetPSK\<close> put around the value.\<close>

definition SetSSID ::
  "WPACtrl \<Rightarrow> string \<Rightarrow> string \<Rightarrow> error option \<Rightarrow> read_result list
     \<Rightarrow> (panic + error option) \<times> WPACtrl"
where
  "SetSSID wc network ssid werr rs =
     OkCommand wc (''SET_NETWORK '' @ network @ '' ssid '' @ [CHR 0x22] @ ssid @ [CHR 0x22]) werr rs"

definition SetPSK ::
  "WPACtrl \<Rightarrow> string \<Rightarrow> string \<Rightarrow> error option \<Rightarrow> read_result list
     \<Rightarrow> (panic + error option) \<times> WPACtrl"
where
  "SetPSK wc network psk werr rs =
     OkCommand wc (''SET_NETWORK '' @ network @ '' psk '' @ [CHR 0x22] @ psk @ [CHR 0x22]) werr rs"

definition RemoveNetwork ::
  "WPACtrl \<Rightarrow> string \<Rightarrow> error option \<Rightarrow> read_result list \<Rightarrow> (panic + error option) \<times> WPACtrl"
where
  "RemoveNetwork wc n werr rs = OkCommand wc (''REMOVE_NETWORK '' @ n) werr rs"

section \<open>The mock daemon\<close>

text \<open>
  \<open>network\<close> of the test package; the field \<open>id\<close> is written \<open>id_net\<close>. The slice
  \<open>networks\<close> holds pointers, and \<open>REMOVE_NETWORK\<close> stores nil in it: an element is an
  option. A network is created by \<open>ADD_NETWORK\<close> only and is pointed to from one place of
  the slice, so writing through the pointer that \<open>getNetwork\<close> returned is an update of the
  slice at the index it was read from.
\<close>

record network =
  id_net :: int
  ssid :: string
  psk :: string
  flags :: string

text \<open>
  \<open>WPAProcessMock\<close>: \<open>attached\<close> says that \<open>unsolConn\<close> has been set,
  \<open>OnNetworkEnabled\<close> that the callback is not nil, and \<open>enabled\<close> lists the arguments of
  the calls of the callback that have been started.
\<close>

record WPAProcessMock =
  networks :: "network option list"
  attached :: bool
  OnNetworkEnabled :: bool
  enabled :: "int list"

definition NewWPAProcessMock :: WPAProcessMock where
  "NewWPAProcessMock = \<lparr>networks = [], attached = False, OnNetworkEnabled = False, enabled = []\<rparr>"

definition getNetwork :: "WPAProcessMock \<Rightarrow> int \<Rightarrow> panic + network option" where
  "getNetwork w i =
     (if i < 0 \<or> i > int (length (networks w)) then Inr None
      else index (networks w) i)"

definition getNetworkStr :: "WPAProcessMock \<Rightarrow> string \<Rightarrow> panic + network option" where
  "getNetworkStr w idstr =
     (case Atoi idstr of
        None \<Rightarrow> Inr None
      | Some i \<Rightarrow> getNetwork w i)"

text \<open>
  The place of the slice that the pointer returned by \<open>getNetworkStr\<close> points into, when
  it is not nil.
\<close>

definition slot :: "string \<Rightarrow> nat" where
  "slot idstr = (case Atoi idstr of None \<Rightarrow> 0 | Some i \<Rightarrow> nat i)"

text \<open>The lines of \<open>LIST_NETWORKS\<close>; reading \<open>net.id\<close> through a nil pointer panics.\<close>

fun list_lines :: "network option list \<Rightarrow> panic + string list" where
  "list_lines [] = Inr []"
| "list_lines (None # ns) = Inl NilDereference"
| "list_lines (Some n # ns) =
     (case list_lines ns of
        Inl p \<Rightarrow> Inl p
      | Inr ls \<Rightarrow>
          Inr ((Itoa (id_net n) @ [CHR 0x09] @ ssid n @ [CHR 0x09, CHR 0x09] @ ''['' @ flags n @ '']'')
               # ls))"

text \<open>
  \<open>processMockCommand\<close>: the reply and the state after it, or the panic that ends the
  mock. \<open>go w.OnNetworkEnabled(net.id)\<close> with a nil callback is a panic of the process.
\<close>

definition processMockCommand :: "WPAProcessMock \<Rightarrow> string \<Rightarrow> panic + string \<times> WPAProcessMock" where
  "processMockCommand w cmd =
     (let fields = Split cmd (CHR '' '')
      in if fields ! 0 = ''PING'' then Inr (''PONG'', w)
         else if fields ! 0 = ''ATTACH'' then Inr (''OK'', w\<lparr>attached := True\<rparr>)
         else if fields ! 0 = ''LIST_NETWORKS'' then
           (case list_lines (networks w) of
              Inl p \<Rightarrow> Inl p
            | Inr ls \<Rightarrow> Inr (Join (''network id / ssid / bssid / flags'' # ls) [CHR 0x0A], w))
         else if fields ! 0 = ''ADD_NETWORK'' then
           (let i = int (length (networks w))
            in Inr (Itoa i,
                    w\<lparr>networks := networks w @ [Some \<lparr>id_net = i, ssid = [], psk = [], flags = []\<rparr>]\<rparr>))
         else if fields ! 0 = ''REMOVE_NETWORK'' then
           (if length fields < 2 then Inr (''FAIL'', w)
            else (case getNetworkStr w (fields ! 1) of
                    Inl p \<Rightarrow> Inl p
                  | Inr None \<Rightarrow> Inr (''FAIL'', w)
                  | Inr (Some net) \<Rightarrow>
                      if id_net net = int (length (networks w)) - 1
                      then Inr (''OK'', w\<lparr>networks := butlast (networks w)\<rparr>)
                      else if 0 \<le> id_net net \<and> nat (id_net net) < length (networks w)
                      then Inr (''OK'', w\<lparr>networks := (networks w)[nat (id_net net) := None]\<rparr>)
                      else Inl IndexOutOfRange))
         else if fields ! 0 = ''ENABLE_NETWORK'' then
           (if length fields < 2 then Inr (''FAIL'', w)
            else (case getNetworkStr w (fields ! 1) of
                    Inl p \<Rightarrow> Inl p
                  | Inr None \<Rightarrow> Inr (''FAIL'', w)
                  | Inr (Some net) \<Rightarrow>
                      (let i = slot (fields ! 1);
                           w = w\<lparr>networks := (networks w)[i := Some (net\<lparr>flags := ''CURRENT''\<rparr>)]\<rparr>
                       in if OnNetworkEnabled w
                          then Inr (''OK'', w\<lparr>enabled := enabled w @ [id_net net]\<rparr>)
                          else Inl NilFunc)))
         else if fields ! 0 = ''SET_NETWORK'' then
           (if length fields < 4 then Inr (''FAIL'', w)
            else (case getNetworkStr w (fields ! 1) of
                    Inl p \<Rightarrow> Inl p
                  | Inr None \<Rightarrow> Inr (''FAIL'', w)
                  | Inr (Some net) \<Rightarrow>
                      (let i = slot (fields ! 1)
                       in if fields ! 2 = ''ssid''
                          then Inr (''OK'', w\<lparr>networks :=
                                 (networks w)[i := Some (net\<lparr>ssid := Trim (fields ! 3) [CHR 0x22]\<rparr>)]\<rparr>)
                          else if fields ! 2 = ''psk''
                          then Inr (''OK'', w\<lparr>networks :=
                                 (networks w)[i := Some (net\<lparr>psk := Trim (fields ! 3) [CHR 0x22]\<rparr>)]\<rparr>)
                          else Inr (''FAIL'', w))))
         else Inr (''UNKNOWN_COMMAND: '' @ fields ! 0, w))"

section \<open>Properties of \<open>TrimSpace\<close>\<close>

lemma leading_space_TrimLeftSpace: "leading_space (TrimLeftSpace s) = None"
proof (induction s rule: TrimLeftSpace.induct)
  case (1 s)
  show ?case
  proof (cases "leading_space s")
    case None
    then show ?thesis by (simp add: TrimLeftSpace.simps [of s])
  next
    case (Some t)
    with "1" show ?thesis by (simp add: TrimLeftSpace.simps [of s])
  qed
qed

lemma trailing_space_TrimRightSpace: "trailing_space (TrimRightSpace s) = None"
proof (induction s rule: TrimRightSpace.induct)
  case (1 s)
  show ?case
  proof (cases "trailing_space s")
    case None
    then show ?thesis by (simp add: TrimRightSpace.simps [of s])
  next
    case (Some t)
    with "1" show ?thesis by (simp add: TrimRightSpace.simps [of s])
  qed
qed

lemma leading_space_take: "leading_space s = None \<Longrightarrow> leading_space (take k s) = None"
  unfolding leading_space_def find_None_iff
  using take_is_prefix prefix_order.trans by blast

lemma leading_space_TrimRightSpace:
  "leading_space s = None \<Longrightarrow> leading_space (TrimRightSpace s) = None"
proof (induction s rule: TrimRightSpace.induct)
  case (1 s)
  show ?case
  proof (cases "trailing_space s")
    case None
    with "1.prems" show ?thesis by (simp add: TrimRightSpace.simps [of s])
  next
    case (Some t)
    have "leading_space (take (length s - length t) s) = None"
      using "1.prems" by (rule leading_space_take)
    with "1.IH" Some show ?thesis by (simp add: TrimRightSpace.simps [of s])
  qed
qed

lemma trimmed_TrimSpace: "trimmed (TrimSpace s)"
  by (simp add: trimmed_def TrimSpace_def trailing_space_TrimRightSpace
      leading_space_TrimRightSpace leading_space_TrimLeftSpace)

lemma TrimSpace_trimmed: "trimmed s \<Longrightarrow> TrimSpace s = s"
  by (simp add: trimmed_def TrimSpace_def TrimLeftSpace.simps [of s] TrimRightSpace.simps [of s])

section \<open>Routing of datagrams\<close>

text \<open>What \<open>Read\<close> leaves in the buffer of 4096 bytes.\<close>

lemma conn_Read_4096:
  "length b = 4096 \<Longrightarrow> conn_Read b d = (min 4096 (length d), take 4096 d @ drop (length d) b)"
  by (simp add: conn_Read_def Let_def min_def)

lemma read_nth0: "d \<noteq> [] \<Longrightarrow> (take 4096 d @ r) ! 0 = d ! 0"
  by (cases d) (simp_all add: nth_append)

lemma read_nth2: "3 \<le> length d \<Longrightarrow> (take 4096 d @ r) ! 2 = d ! 2"
  by (simp add: nth_append)

lemma read_take: "take (min 4096 (length d)) (take 4096 d @ r) = take 4096 d"
  by (simp add: min_def)

lemma read_length: "length b = 4096 \<Longrightarrow> length (take 4096 d @ drop (length d) b) = 4096"
  by simp

lemma read_frame:
  fixes d :: string and wc :: WPACtrl
  assumes "length (buf wc) = 4096"
  defines "b \<equiv> take 4096 d @ drop (length d) (buf wc)"
  shows "conn_Read (buf wc) d = (min 4096 (length d), b)"
    and "\<not> length b < 3"
    and "take (min 4096 (length d)) b = take 4096 d"
    and "d \<noteq> [] \<Longrightarrow> b ! 0 = d ! 0"
    and "3 \<le> length d \<Longrightarrow> b ! 2 = d ! 2"
    and "3 \<le> length d \<Longrightarrow> \<not> min 4096 (length d) < 3"
  using assms
  by (simp_all add: conn_Read_4096 read_take read_nth0 read_nth2 del: take_append nth_append)

lemma receive_iter_reply:
  assumes "length (buf wc) = 4096" "\<not> ctx_done wc" "\<not> is_closed (solicited wc)"
    and "d \<noteq> []" "d ! 0 \<noteq> CHR ''<''"
  shows "receive_iter wc (Datagram d) =
     Continue (if length (queue (solicited wc)) < capacity (solicited wc)
               then wc\<lparr>buf := take 4096 d @ drop (length d) (buf wc),
                       solicited := (solicited wc)\<lparr>queue := queue (solicited wc) @ [TrimSpace (take 4096 d)]\<rparr>\<rparr>
               else wc\<lparr>buf := take 4096 d @ drop (length d) (buf wc)\<rparr>)"
proof -
  define b where "b = take 4096 d @ drop (length d) (buf wc)"
  define n where "n = min 4096 (length d)"
  note f = read_frame [OF assms(1), of d, folded b_def n_def]
  have "b ! 0 \<noteq> CHR ''<''"
    using f(4) assms(4,5) by simp
  then have "receive_iter wc (Datagram d) =
     Continue (if length (queue (solicited wc)) < capacity (solicited wc)
               then wc\<lparr>buf := b,
                       solicited := (solicited wc)\<lparr>queue := queue (solicited wc) @ [TrimSpace (take 4096 d)]\<rparr>\<rparr>
               else wc\<lparr>buf := b\<rparr>)"
    using assms(2,3) by (simp add: receive_iter_def f(1) f(3) Let_def send_def)
  then show ?thesis
    by (simp only: b_def)
qed

lemma receive_iter_event:
  assumes "length (buf wc) = 4096" "\<not> ctx_done wc" "\<not> is_closed (unsolicited wc)"
    and "3 \<le> length d" "d ! 0 = CHR ''<''" "d ! 2 = CHR ''>''"
  shows "receive_iter wc (Datagram d) =
     (if length (queue (unsolicited wc)) < capacity (unsolicited wc)
      then Continue (wc\<lparr>buf := take 4096 d @ drop (length d) (buf wc),
                      unsolicited := (unsolicited wc)\<lparr>queue := queue (unsolicited wc)
                                        @ [TrimSpace (drop 3 (take 4096 d))]\<rparr>\<rparr>)
      else Blocked (wc\<lparr>buf := take 4096 d @ drop (length d) (buf wc)\<rparr>)
                   (TrimSpace (drop 3 (take 4096 d))))"
proof -
  define b where "b = take 4096 d @ drop (length d) (buf wc)"
  define n where "n = min 4096 (length d)"
  note f = read_frame [OF assms(1), of d, folded b_def n_def]
  from assms(4) have ne: "d \<noteq> []" by auto
  have "b ! 0 = CHR ''<''" "b ! 2 = CHR ''>''" "\<not> n < 3"
    using f(4) [OF ne] f(5,6) [OF assms(4)] assms(5,6) by simp_all
  then have "receive_iter wc (Datagram d) =
     (if length (queue (unsolicited wc)) < capacity (unsolicited wc)
      then Continue (wc\<lparr>buf := b,
                      unsolicited := (unsolicited wc)\<lparr>queue := queue (unsolicited wc)
                                        @ [TrimSpace (drop 3 (take 4096 d))]\<rparr>\<rparr>)
      else Blocked (wc\<lparr>buf := b\<rparr>) (TrimSpace (drop 3 (take 4096 d))))"
    using assms(2,3) f(2) by (simp add: receive_iter_def f(1) f(3) Let_def send_def)
  then show ?thesis
    by (simp only: b_def)
qed

lemma receive_iter_drop:
  assumes "length (buf wc) = 4096" "\<not> ctx_done wc"
    and "3 \<le> length d" "d ! 0 = CHR ''<''" "d ! 2 \<noteq> CHR ''>''"
  shows "receive_iter wc (Datagram d) =
           Continue (wc\<lparr>buf := take 4096 d @ drop (length d) (buf wc)\<rparr>)"
proof -
  define b where "b = take 4096 d @ drop (length d) (buf wc)"
  define n where "n = min 4096 (length d)"
  note f = read_frame [OF assms(1), of d, folded b_def n_def]
  from assms(3) have ne: "d \<noteq> []" by auto
  have "b ! 0 = CHR ''<''" "b ! 2 \<noteq> CHR ''>''"
    using f(4) [OF ne] f(5) [OF assms(3)] assms(4,5) by simp_all
  then have "receive_iter wc (Datagram d) = Continue (wc\<lparr>buf := b\<rparr>)"
    using assms(2) by (simp add: receive_iter_def f(1) Let_def)
  then show ?thesis
    by (simp only: b_def)
qed

lemma NewWPACtrl_ready:
  "length (buf NewWPACtrl) = 4096 \<and> \<not> ctx_done NewWPACtrl
   \<and> \<not> is_closed (solicited NewWPACtrl) \<and> \<not> is_closed (unsolicited NewWPACtrl)"
  by (simp add: NewWPACtrl_def make_chan_def)

text \<open>
  C1, as the code has it. The reader does not look at the second byte, and a datagram that
  starts with \<open><\<close> is never a reply. While the reader runs (buffer of 4096 bytes, context
  not cancelled, channels open): a datagram of at least three bytes is handed to the event
  channel if and only if its first byte is \<open><\<close> and its third byte is \<open>>\<close>, and what is
  handed over is the datagram (cut to 4096 bytes) without its first three bytes, trimmed; a
  datagram of at least three bytes that starts with \<open><\<close> and has another third byte
  changes neither channel; a datagram that is not empty and does not start with \<open><\<close> is
  sent, trimmed, to the reply channel when it has room, and changes neither channel otherwise.
\<close>

theorem datagram_routing:
  assumes "length (buf wc) = 4096" "\<not> ctx_done wc"
    and "\<not> is_closed (solicited wc)" "\<not> is_closed (unsolicited wc)"
  shows "(3 \<le> length d \<longrightarrow>
            ((\<exists>m. to_unsolicited wc (receive_iter wc (Datagram d)) m)
               \<longleftrightarrow> d ! 0 = CHR ''<'' \<and> d ! 2 = CHR ''>'')
          \<and> (d ! 0 = CHR ''<'' \<and> d ! 2 = CHR ''>'' \<longrightarrow>
                to_unsolicited wc (receive_iter wc (Datagram d)) (TrimSpace (drop 3 (take 4096 d))))
          \<and> (d ! 0 = CHR ''<'' \<and> d ! 2 \<noteq> CHR ''>'' \<longrightarrow>
                receive_iter wc (Datagram d)
                  = Continue (wc\<lparr>buf := take 4096 d @ drop (length d) (buf wc)\<rparr>)))
       \<and> (d \<noteq> [] \<and> d ! 0 \<noteq> CHR ''<'' \<longrightarrow>
            receive_iter wc (Datagram d) =
              Continue (if length (queue (solicited wc)) < capacity (solicited wc)
                        then wc\<lparr>buf := take 4096 d @ drop (length d) (buf wc),
                                solicited := (solicited wc)\<lparr>queue := queue (solicited wc)
                                                @ [TrimSpace (take 4096 d)]\<rparr>\<rparr>
                        else wc\<lparr>buf := take 4096 d @ drop (length d) (buf wc)\<rparr>))"
proof -
  have ev: "to_unsolicited wc (receive_iter wc (Datagram d)) (TrimSpace (drop 3 (take 4096 d)))"
    if "3 \<le> length d" "d ! 0 = CHR ''<''" "d ! 2 = CHR ''>''"
    using receive_iter_event [OF assms(1,2,4) that]
    by (simp add: to_unsolicited_def)
  have dr: "receive_iter wc (Datagram d)
              = Continue (wc\<lparr>buf := take 4096 d @ drop (length d) (buf wc)\<rparr>)"
    if "3 \<le> length d" "d ! 0 = CHR ''<''" "d ! 2 \<noteq> CHR ''>''"
    using receive_iter_drop [OF assms(1,2) that] .
  have rp: "receive_iter wc (Datagram d) =
              Continue (if length (queue (solicited wc)) < capacity (solicited wc)
                        then wc\<lparr>buf := take 4096 d @ drop (length d) (buf wc),
                                solicited := (solicited wc)\<lparr>queue := queue (solicited wc)
                                                @ [TrimSpace (take 4096 d)]\<rparr>\<rparr>
                        else wc\<lparr>buf := take 4096 d @ drop (length d) (buf wc)\<rparr>)"
    if "d \<noteq> []" "d ! 0 \<noteq> CHR ''<''"
    using receive_iter_reply [OF assms(1,2,3) that] .
  have no_dr: "\<not> to_unsolicited wc (receive_iter wc (Datagram d)) m"
    if "3 \<le> length d" "d ! 0 = CHR ''<''" "d ! 2 \<noteq> CHR ''>''" for m
    using dr [OF that] by (simp add: to_unsolicited_def)
  have no_rp: "\<not> to_unsolicited wc (receive_iter wc (Datagram d)) m"
    if "3 \<le> length d" "d ! 0 \<noteq> CHR ''<''" for m
  proof -
    from that(1) have "d \<noteq> []" by auto
    from rp [OF this that(2)] show ?thesis
      by (simp add: to_unsolicited_def)
  qed
  show ?thesis
    using ev dr rp no_dr no_rp by blast
qed

text \<open>
  The claim as stated fails twice: \<open><a>hi\<close> has no digit in its marker and is an event
  all the same, and \<open><2x\<close> is not of the shape of an event and is not a reply either.
\<close>

theorem datagram_routing_counterexample:
  "\<not> spec_is_event ''<a>hi''
   \<and> receive_iter NewWPACtrl (Datagram ''<a>hi'')
       = Continue (NewWPACtrl\<lparr>buf := ''<a>hi'' @ replicate 4091 (CHR 0x00),
                              unsolicited := (make_chan 100)\<lparr>queue := [''hi'']\<rparr>\<rparr>)
   \<and> \<not> spec_is_event ''<2x''
   \<and> receive_iter NewWPACtrl (Datagram ''<2x'')
       = Continue (NewWPACtrl\<lparr>buf := ''<2x'' @ replicate 4093 (CHR 0x00)\<rparr>)"
  by code_simp

theorem datagram_routing_witness:
  "length (buf NewWPACtrl) = 4096 \<and> \<not> ctx_done NewWPACtrl
   \<and> \<not> is_closed (solicited NewWPACtrl) \<and> \<not> is_closed (unsolicited NewWPACtrl)
   \<and> 3 \<le> length ''<2>CTRL-EVENT-SOMETHING''
   \<and> ''<2>CTRL-EVENT-SOMETHING'' ! 0 = CHR ''<'' \<and> ''<2>CTRL-EVENT-SOMETHING'' ! 2 = CHR ''>''
   \<and> to_unsolicited NewWPACtrl (receive_iter NewWPACtrl (Datagram ''<2>CTRL-EVENT-SOMETHING''))
        ''CTRL-EVENT-SOMETHING''
   \<and> ''PONG'' \<noteq> [] \<and> ''PONG'' ! 0 \<noteq> CHR ''<''
   \<and> receive_iter NewWPACtrl (Datagram ''PONG'')
       = Continue (NewWPACtrl\<lparr>buf := ''PONG'' @ replicate 4092 (CHR 0x00),
                              solicited := (make_chan 1)\<lparr>queue := [''PONG'']\<rparr>\<rparr>)"
proof -
  note r = NewWPACtrl_ready
  have h: "3 \<le> length ''<2>CTRL-EVENT-SOMETHING''
      \<and> ''<2>CTRL-EVENT-SOMETHING'' ! 0 = CHR ''<'' \<and> ''<2>CTRL-EVENT-SOMETHING'' ! 2 = CHR ''>''"
    by simp
  have t: "TrimSpace (drop 3 (take 4096 ''<2>CTRL-EVENT-SOMETHING'')) = ''CTRL-EVENT-SOMETHING''"
    by code_simp
  have t': "TrimSpace (take 4096 ''PONG'') = ''PONG''"
    by code_simp
  have e: "to_unsolicited NewWPACtrl (receive_iter NewWPACtrl (Datagram ''<2>CTRL-EVENT-SOMETHING''))
        (TrimSpace (drop 3 (take 4096 ''<2>CTRL-EVENT-SOMETHING'')))"
    using datagram_routing [of NewWPACtrl "''<2>CTRL-EVENT-SOMETHING''"] r h by blast
  have h': "''PONG'' \<noteq> [] \<and> ''PONG'' ! 0 \<noteq> CHR ''<''"
    by simp
  have "receive_iter NewWPACtrl (Datagram ''PONG'') =
              Continue (if length (queue (solicited NewWPACtrl)) < capacity (solicited NewWPACtrl)
                        then NewWPACtrl\<lparr>buf := take 4096 ''PONG'' @ drop (length ''PONG'') (buf NewWPACtrl),
                                solicited := (solicited NewWPACtrl)\<lparr>queue := queue (solicited NewWPACtrl)
                                                @ [TrimSpace (take 4096 ''PONG'')]\<rparr>\<rparr>
                        else NewWPACtrl\<lparr>buf := take 4096 ''PONG'' @ drop (length ''PONG'') (buf NewWPACtrl)\<rparr>)"
    using datagram_routing [of NewWPACtrl "''PONG''"] r h' by blast
  then have p: "receive_iter NewWPACtrl (Datagram ''PONG'')
       = Continue (NewWPACtrl\<lparr>buf := ''PONG'' @ replicate 4092 (CHR 0x00),
                              solicited := (make_chan 1)\<lparr>queue := [''PONG'']\<rparr>\<rparr>)"
    unfolding t' by (simp add: NewWPACtrl_def make_chan_def)
  from e have e': "to_unsolicited NewWPACtrl (receive_iter NewWPACtrl (Datagram ''<2>CTRL-EVENT-SOMETHING''))
        ''CTRL-EVENT-SOMETHING''"
    unfolding t .
  from r h e' h' p show ?thesis
    by blast
qed

text \<open>
  A datagram of one or two bytes that starts with \<open><\<close> leaves the third byte of the buffer
  as it was; when that byte is \<open>>\<close>, the reader panics.
\<close>

lemma receive_iter_short_marker:
  assumes "length (buf wc) = 4096" "\<not> ctx_done wc"
    and "d \<noteq> []" "length d < 3" "d ! 0 = CHR ''<''" "buf wc ! 2 = CHR ''>''"
  shows "receive_iter wc (Datagram d) = Panic SliceBoundsOutOfRange"
proof -
  define b where "b = take 4096 d @ drop (length d) (buf wc)"
  define n where "n = min 4096 (length d)"
  note f = read_frame [OF assms(1), of d, folded b_def n_def]
  have "b ! 0 = CHR ''<''"
    using f(4) [OF assms(3)] assms(5) by simp
  moreover have "b ! 2 = buf wc ! 2"
    using assms(1,4) by (simp add: b_def nth_append)
  moreover have "n < 3"
    using assms(4) by (simp add: n_def)
  ultimately show ?thesis
    using assms(2,6) f(2) by (simp add: receive_iter_def f(1) Let_def)
qed

text \<open>
  C5. A datagram that starts with \<open><\<close> and is shorter than three bytes is not always
  dropped: the reader compares the length of its buffer with 3, not the length of the
  datagram, and reads the third byte that an earlier datagram left in the buffer. After an
  event, the datagram \<open><\<close> finds \<open>>\<close> there and the slice \<open>buf[3:1]\<close> panics. A reader
  that has read nothing before drops the same datagram.
\<close>

theorem short_marker_panics:
  "receiveLoop NewWPACtrl [Datagram ''<2>CTRL-EVENT-CONNECTED'', Datagram ''<'']
     = Panic SliceBoundsOutOfRange
   \<and> receiveLoop NewWPACtrl [Datagram ''<'']
     = Continue (NewWPACtrl\<lparr>buf := ''<'' @ replicate 4095 (CHR 0x00)\<rparr>)"
  by code_simp

section \<open>Decoding of the disconnect reason\<close>

lemma sublist_ConsI: "sublist xs ys \<Longrightarrow> sublist xs (y # ys)"
  by (simp add: sublist_Cons_right)

lemma sublist_dropD: "sublist xs (drop n ys) \<Longrightarrow> sublist xs ys"
  unfolding sublist_def
proof -
  assume "\<exists>ps ss. drop n ys = ps @ xs @ ss"
  then obtain ps ss where "drop n ys = ps @ xs @ ss" by blast
  then have "ys = (take n ys @ ps) @ xs @ ss"
    by (metis append_take_drop_id append_assoc)
  then show "\<exists>ps ss. ys = ps @ xs @ ss" by blast
qed

lemma dre_group_None: "\<not> prefix ''reason='' s \<Longrightarrow> dre_group s = None"
  by (simp add: dre_group_def)

lemma dre_group_Some_digits:
  "dre_group s = Some g \<Longrightarrow> g \<noteq> [] \<and> list_all is_digit g"
  by (auto simp: dre_group_def list_all_iff split: if_splits dest: set_takeWhileD)

lemma dre_group_token:
  assumes "dre_group s = Some g"
  shows "\<exists>d. is_digit d \<and> prefix (''reason='' @ [d]) s"
proof -
  from assms have p: "prefix ''reason='' s" and t: "takeWhile is_digit (drop 7 s) \<noteq> []"
    by (auto simp: dre_group_def split: if_splits)
  from p obtain r where s: "s = ''reason='' @ r"
    by (auto simp: prefix_def)
  with t obtain d r' where r: "r = d # r'" and d: "is_digit d"
    by (cases r) (auto split: if_splits)
  show ?thesis using s r d by auto
qed

text \<open>
  No occurrence of \<open>reason=\<close> starts inside \<open>mid\<close> and runs into a following \<open>reason=\<close>:
  the word has no proper prefix that is also its suffix.
\<close>

lemma reason_no_overlap:
  assumes "prefix ''reason='' (mid @ ''reason='' @ t)" "mid \<noteq> []"
  shows "prefix ''reason='' mid"
proof (cases mid)
  case Nil with assms show ?thesis by simp
next
  case (Cons a m1)
  note c1 = this
  show ?thesis
  proof (cases m1)
    case Nil with assms c1 show ?thesis by simp
  next
    case (Cons b m2)
    note c2 = this
    show ?thesis
    proof (cases m2)
      case Nil with assms c1 c2 show ?thesis by simp
    next
      case (Cons c m3)
      note c3 = this
      show ?thesis
      proof (cases m3)
        case Nil with assms c1 c2 c3 show ?thesis by simp
      next
        case (Cons d m4)
        note c4 = this
        show ?thesis
        proof (cases m4)
          case Nil with assms c1 c2 c3 c4 show ?thesis by simp
        next
          case (Cons e m5)
          note c5 = this
          show ?thesis
          proof (cases m5)
            case Nil with assms c1 c2 c3 c4 c5 show ?thesis by simp
          next
            case (Cons f m6)
            note c6 = this
            show ?thesis
            proof (cases m6)
              case Nil with assms c1 c2 c3 c4 c5 c6 show ?thesis by simp
            next
              case (Cons g m7)
              with assms c1 c2 c3 c4 c5 c6 show ?thesis by simp
            qed
          qed
        qed
      qed
    qed
  qed
qed

lemma dre_lazy_token:
  "dre_lazy s = Some g \<Longrightarrow> \<exists>d. is_digit d \<and> sublist (''reason='' @ [d]) s"
proof (induction s)
  case Nil
  then show ?case by (simp add: dre_group_def)
next
  case (Cons c cs)
  show ?case
  proof (cases "dre_group (c # cs)")
    case (Some h)
    then obtain d where d: "is_digit d" and p: "prefix (''reason='' @ [d]) (c # cs)"
      using dre_group_token by blast
    from p have "sublist (''reason='' @ [d]) (c # cs)"
      by (rule prefix_imp_sublist)
    with d show ?thesis by (intro exI [of _ d] conjI)
  next
    case None
    with Cons.prems have "dre_lazy cs = Some g"
      by (simp split: if_splits)
    then obtain d where d: "is_digit d" and p: "sublist (''reason='' @ [d]) cs"
      using Cons.IH by blast
    from p have "sublist (''reason='' @ [d]) (c # cs)"
      by (rule sublist_ConsI)
    with d show ?thesis by (intro exI [of _ d] conjI)
  qed
qed

lemma dre_at_token:
  assumes "dre_at s = Some g"
  shows "\<exists>d. is_digit d \<and> sublist (''reason='' @ [d]) s"
proof -
  from assms have "dre_lazy (drop 23 s) = Some g"
    by (simp add: dre_at_def split: if_splits)
  then obtain d where d: "is_digit d" and p: "sublist (''reason='' @ [d]) (drop 23 s)"
    using dre_lazy_token by blast
  from p have "sublist (''reason='' @ [d]) s"
    by (rule sublist_dropD)
  with d show ?thesis by (intro exI [of _ d] conjI)
qed

lemma dre_find_token:
  "dre_find s = Some g \<Longrightarrow> \<exists>d. is_digit d \<and> sublist (''reason='' @ [d]) s"
proof (induction s)
  case Nil
  then show ?case by (simp add: dre_at_def)
next
  case (Cons c cs)
  show ?case
  proof (cases "dre_at (c # cs)")
    case (Some h)
    then show ?thesis by (rule dre_at_token)
  next
    case None
    with Cons.prems have "dre_find cs = Some g" by simp
    then obtain d where d: "is_digit d" and p: "sublist (''reason='' @ [d]) cs"
      using Cons.IH by blast
    from p have "sublist (''reason='' @ [d]) (c # cs)"
      by (rule sublist_ConsI)
    with d show ?thesis by (intro exI [of _ d] conjI)
  qed
qed

lemma dre_lazy_digits: "dre_lazy s = Some g \<Longrightarrow> g \<noteq> [] \<and> list_all is_digit g"
proof (induction s)
  case Nil
  then show ?case by (simp add: dre_group_def)
next
  case (Cons c cs)
  show ?case
  proof (cases "dre_group (c # cs)")
    case (Some h)
    with Cons.prems have "h = g" by simp
    with Some show ?thesis using dre_group_Some_digits by blast
  next
    case None
    with Cons.prems have "dre_lazy cs = Some g"
      by (simp split: if_splits)
    then show ?thesis by (rule Cons.IH)
  qed
qed

lemma dre_at_digits: "dre_at s = Some g \<Longrightarrow> g \<noteq> [] \<and> list_all is_digit g"
  by (cases "prefix ''CTRL-EVENT-DISCONNECTED'' s") (simp_all add: dre_at_def dre_lazy_digits)

lemma dre_find_digits: "dre_find s = Some g \<Longrightarrow> g \<noteq> [] \<and> list_all is_digit g"
proof (induction s)
  case Nil
  then show ?case using dre_at_digits by simp
next
  case (Cons c cs)
  show ?case
  proof (cases "dre_at (c # cs)")
    case (Some h)
    with Cons.prems have "h = g" by simp
    with Some show ?thesis using dre_at_digits by blast
  next
    case None
    with Cons.prems have "dre_find cs = Some g" by simp
    then show ?thesis by (rule Cons.IH)
  qed
qed

lemma parseReason_digits: "parseReason msg \<noteq> [] \<and> list_all is_digit (parseReason msg)"
proof (cases "dre_find msg")
  case None
  then show ?thesis by (simp add: parseReason_def is_digit_def)
next
  case (Some g)
  then show ?thesis using dre_find_digits [OF Some] by (simp add: parseReason_def)
qed

lemma dre_group_here:
  assumes "ds \<noteq> []" "list_all is_digit ds" "rest = [] \<or> \<not> is_digit (hd rest)"
  shows "dre_group (''reason='' @ ds @ rest) = Some ds"
proof -
  from assms(2,3) have "takeWhile is_digit (ds @ rest) = ds"
    by (cases rest) (auto simp: list_all_iff takeWhile_append2)
  with assms(1) show ?thesis
    by (simp add: dre_group_def)
qed

lemma dre_lazy_here:
  assumes "ds \<noteq> []" "list_all is_digit ds" "rest = [] \<or> \<not> is_digit (hd rest)"
  shows "dre_lazy (''reason='' @ ds @ rest) = Some ds"
  using dre_group_here [OF assms] by simp

lemma dre_lazy_skip:
  assumes "CHR 0x0A \<notin> set mid" "\<not> sublist ''reason='' mid"
  shows "dre_lazy (mid @ ''reason='' @ t) = dre_lazy (''reason='' @ t)"
proof -
  define s where "s = ''reason='' @ t"
  have "dre_lazy (mid @ s) = dre_lazy s"
    using assms
  proof (induction mid)
    case Nil
    then show ?case by simp
  next
    case (Cons c cs)
    have "\<not> prefix ''reason='' ((c # cs) @ s)"
    proof
      assume "prefix ''reason='' ((c # cs) @ s)"
      then have "prefix ''reason='' (c # cs)"
        unfolding s_def by (rule reason_no_overlap) simp
      then have "sublist ''reason='' (c # cs)"
        by (rule prefix_imp_sublist)
      with Cons.prems(2) show False by simp
    qed
    then have g: "dre_group (c # cs @ s) = None"
      by (simp add: dre_group_None)
    have "\<not> sublist ''reason='' cs"
      using Cons.prems(2) sublist_ConsI [of "''reason=''" cs c] by (intro notI) simp
    with Cons.IH Cons.prems(1) have "dre_lazy (cs @ s) = dre_lazy s"
      by simp
    moreover have "c \<noteq> CHR 0x0A"
      using Cons.prems(1) by auto
    ultimately show ?case
      using g by simp
  qed
  then show ?thesis
    by (simp only: s_def)
qed

lemma parseReason_token:
  assumes "CHR 0x0A \<notin> set mid" "\<not> sublist ''reason='' mid"
    and "ds \<noteq> []" "list_all is_digit ds" "rest = [] \<or> \<not> is_digit (hd rest)"
  shows "parseReason (''CTRL-EVENT-DISCONNECTED'' @ mid @ ''reason='' @ ds @ rest) = ds"
proof -
  have "dre_lazy (mid @ ''reason='' @ ds @ rest) = Some ds"
    using dre_lazy_skip [OF assms(1,2)] dre_lazy_here [OF assms(3,4,5)] by simp
  then have "dre_at (''CTRL-EVENT-DISCONNECTED'' @ mid @ ''reason='' @ ds @ rest) = Some ds"
    by (simp add: dre_at_def)
  then show ?thesis
    by (simp add: parseReason_def)
qed

lemma parseReason_no_token:
  assumes "\<forall>d. is_digit d \<longrightarrow> \<not> sublist (''reason='' @ [d]) msg"
  shows "parseReason msg = ''0''"
proof (cases "dre_find msg")
  case None
  then show ?thesis by (simp add: parseReason_def)
next
  case (Some g)
  then obtain d where "is_digit d" "sublist (''reason='' @ [d]) msg"
    using dre_find_token by blast
  with assms show ?thesis by simp
qed

lemma Reason_render:
  "Reason (NewOnDisconnectedEvent msg) = parseReason msg @ '':'' @ reason_label (parseReason msg)"
  by (simp add: NewOnDisconnectedEvent_def Let_def)

text \<open>
  C3. The reason of a disconnect event is rendered as the code, a colon and the label of the
  code in the table, the empty label for a code the table does not hold. The code is a run of
  digits: the digits after the first \<open>reason=\<close> that follows the event name on the same
  line, and \<open>0\<close> when no \<open>reason=\<close> of the message is followed by a digit (no such token,
  or a value that does not start with a digit). So \<open>reason=2\<close> gives \<open>2:invalid-auth\<close>, no
  token gives \<open>0:\<close>, \<open>reason=1235\<close> gives \<open>1235:\<close> and \<open>reason=asdf4\<close> gives \<open>0:\<close>.
\<close>

theorem disconnect_reason_rendering:
  "(\<exists>code. code \<noteq> [] \<and> list_all is_digit code
      \<and> Reason (NewOnDisconnectedEvent msg) = code @ '':'' @ reason_label code)
   \<and> (CHR 0x0A \<notin> set mid \<and> \<not> sublist ''reason='' mid
        \<and> ds \<noteq> [] \<and> list_all is_digit ds \<and> (rest = [] \<or> \<not> is_digit (hd rest))
      \<longrightarrow> Reason (NewOnDisconnectedEvent
                    (''CTRL-EVENT-DISCONNECTED'' @ mid @ ''reason='' @ ds @ rest))
            = ds @ '':'' @ reason_label ds)
   \<and> ((\<forall>d. is_digit d \<longrightarrow> \<not> sublist (''reason='' @ [d]) msg)
      \<longrightarrow> Reason (NewOnDisconnectedEvent msg) = ''0:'')
   \<and> reason_label ''2'' = ''invalid-auth'' \<and> reason_label ''1235'' = [] \<and> reason_label ''0'' = []
   \<and> Reason (NewOnDisconnectedEvent
         ''CTRL-EVENT-DISCONNECTED bssid=00:1a:dd:18:f2:45 reason=2'') = ''2:invalid-auth''
   \<and> Reason (NewOnDisconnectedEvent
         ''CTRL-EVENT-DISCONNECTED bssid=00:1a:dd:18:f2:45'') = ''0:''
   \<and> Reason (NewOnDisconnectedEvent
         ''CTRL-EVENT-DISCONNECTED bssid=00:1a:dd:18:f2:45 reason=1235'') = ''1235:''
   \<and> Reason (NewOnDisconnectedEvent
         ''CTRL-EVENT-DISCONNECTED bssid=00:1a:dd:18:f2:45 reason=asdf4'') = ''0:''"
proof -
  have format: "\<exists>code. code \<noteq> [] \<and> list_all is_digit code
      \<and> Reason (NewOnDisconnectedEvent msg) = code @ '':'' @ reason_label code"
    using parseReason_digits [of msg] Reason_render [of msg] by blast
  have token: "CHR 0x0A \<notin> set mid \<and> \<not> sublist ''reason='' mid
        \<and> ds \<noteq> [] \<and> list_all is_digit ds \<and> (rest = [] \<or> \<not> is_digit (hd rest))
      \<longrightarrow> Reason (NewOnDisconnectedEvent
                    (''CTRL-EVENT-DISCONNECTED'' @ mid @ ''reason='' @ ds @ rest))
            = ds @ '':'' @ reason_label ds"
  proof (intro impI, elim conjE)
    assume "CHR 0x0A \<notin> set mid" "\<not> sublist ''reason='' mid"
      "ds \<noteq> []" "list_all is_digit ds" "rest = [] \<or> \<not> is_digit (hd rest)"
    then have "parseReason (''CTRL-EVENT-DISCONNECTED'' @ mid @ ''reason='' @ ds @ rest) = ds"
      by (rule parseReason_token)
    then show "Reason (NewOnDisconnectedEvent
                    (''CTRL-EVENT-DISCONNECTED'' @ mid @ ''reason='' @ ds @ rest))
            = ds @ '':'' @ reason_label ds"
      by (simp only: Reason_render)
  qed
  have label0: "reason_label ''0'' = []"
    by code_simp
  have absent: "(\<forall>d. is_digit d \<longrightarrow> \<not> sublist (''reason='' @ [d]) msg)
      \<longrightarrow> Reason (NewOnDisconnectedEvent msg) = ''0:''"
  proof
    assume "\<forall>d. is_digit d \<longrightarrow> \<not> sublist (''reason='' @ [d]) msg"
    then have "parseReason msg = ''0''"
      by (rule parseReason_no_token)
    with label0 show "Reason (NewOnDisconnectedEvent msg) = ''0:''"
      by (simp add: Reason_render)
  qed
  have labels: "reason_label ''2'' = ''invalid-auth''" "reason_label ''1235'' = []"
    by code_simp+
  have t1: "Reason (NewOnDisconnectedEvent
         ''CTRL-EVENT-DISCONNECTED bssid=00:1a:dd:18:f2:45 reason=2'') = ''2:invalid-auth''"
    by code_simp
  have t2: "Reason (NewOnDisconnectedEvent
         ''CTRL-EVENT-DISCONNECTED bssid=00:1a:dd:18:f2:45'') = ''0:''"
    by code_simp
  have t3: "Reason (NewOnDisconnectedEvent
         ''CTRL-EVENT-DISCONNECTED bssid=00:1a:dd:18:f2:45 reason=1235'') = ''1235:''"
    by code_simp
  have t4: "Reason (NewOnDisconnectedEvent
         ''CTRL-EVENT-DISCONNECTED bssid=00:1a:dd:18:f2:45 reason=asdf4'') = ''0:''"
    by code_simp
  from format token absent labels label0 t1 t2 t3 t4 show ?thesis
    by (intro conjI)
qed

text \<open>
  The theorem at the message the mock daemon announces, and at a message whose reason is not
  numeric.
\<close>

theorem disconnect_reason_rendering_witness:
  "CHR 0x0A \<notin> set '' bssid=00:1a:dd:18:a4:25 '' \<and> \<not> sublist ''reason='' '' bssid=00:1a:dd:18:a4:25 ''
   \<and> ''3'' \<noteq> [] \<and> list_all is_digit ''3'' \<and> \<not> is_digit (hd '' locally_generated=1'')
   \<and> Reason (NewOnDisconnectedEvent
         ''CTRL-EVENT-DISCONNECTED bssid=00:1a:dd:18:a4:25 reason=3 locally_generated=1'')
       = ''3:sta-left-ess''
   \<and> list_all (\<lambda>d. \<not> sublist (''reason='' @ [d]) ''CTRL-EVENT-DISCONNECTED reason=asdf4'')
         ''0123456789''
   \<and> Reason (NewOnDisconnectedEvent ''CTRL-EVENT-DISCONNECTED reason=asdf4'') = ''0:''"
proof -
  have h1: "CHR 0x0A \<notin> set '' bssid=00:1a:dd:18:a4:25 '' \<and> \<not> sublist ''reason='' '' bssid=00:1a:dd:18:a4:25 ''
      \<and> ''3'' \<noteq> [] \<and> list_all is_digit ''3''
      \<and> ('' locally_generated=1'' = [] \<or> \<not> is_digit (hd '' locally_generated=1''))"
    by code_simp
  have h2: "\<forall>d. is_digit d \<longrightarrow> \<not> sublist (''reason='' @ [d]) ''CTRL-EVENT-DISCONNECTED reason=asdf4''"
    by (simp add: is_digit_def sublist_code)
  have l3: "reason_label ''3'' = ''sta-left-ess''"
    by code_simp
  have "Reason (NewOnDisconnectedEvent
         (''CTRL-EVENT-DISCONNECTED'' @ '' bssid=00:1a:dd:18:a4:25 '' @ ''reason='' @ ''3''
            @ '' locally_generated=1''))
       = ''3'' @ '':'' @ reason_label ''3''"
    using disconnect_reason_rendering
      [of _ "'' bssid=00:1a:dd:18:a4:25 ''" "''3''" "'' locally_generated=1''"] h1
    by blast
  then have c1: "Reason (NewOnDisconnectedEvent
         ''CTRL-EVENT-DISCONNECTED bssid=00:1a:dd:18:a4:25 reason=3 locally_generated=1'')
       = ''3:sta-left-ess''"
    by (simp add: l3)
  have c2: "Reason (NewOnDisconnectedEvent ''CTRL-EVENT-DISCONNECTED reason=asdf4'') = ''0:''"
    using disconnect_reason_rendering [of "''CTRL-EVENT-DISCONNECTED reason=asdf4''"] h2
    by blast
  have h1': "CHR 0x0A \<notin> set '' bssid=00:1a:dd:18:a4:25 '' \<and> \<not> sublist ''reason='' '' bssid=00:1a:dd:18:a4:25 ''
   \<and> ''3'' \<noteq> [] \<and> list_all is_digit ''3'' \<and> \<not> is_digit (hd '' locally_generated=1'')"
    by code_simp
  have h2': "list_all (\<lambda>d. \<not> sublist (''reason='' @ [d]) ''CTRL-EVENT-DISCONNECTED reason=asdf4'')
         ''0123456789''"
    by code_simp
  from h1' c1 h2' c2 show ?thesis
    by blast
qed

section \<open>Totality of the classification\<close>

lemma WPAString_NewOnDisconnectedEvent: "WPAString (NewOnDisconnectedEvent msg) = msg"
  by (simp add: NewOnDisconnectedEvent_def Let_def)

lemma WPAString_classify: "WPAString (classify msg) = msg"
  by (simp add: classify_def WPAString_NewOnDisconnectedEvent)

lemma classify_spec: "classify msg = spec_classify msg"
  by (simp add: classify_def spec_classify_def spec_known_prefixes_def)

lemma events_map: "NewWPASupplicantCtrl_events msgs = map classify msgs"
  by (induction msgs) simp_all

text \<open>
  C4. Classification is total and prefix-based: every payload of the unsolicited stream gives
  exactly one typed event, the variant of the first known prefix that the payload starts with
  (Connected, Disconnected, NetworkNotFound, ScanFailed, ScanStarted, ScanResults, BssAdded, in
  this order), and the generic event when it starts with none; the event wraps the raw message.
\<close>

theorem classify_total_prefix_based:
  "classify msg = spec_classify msg
   \<and> WPAString (classify msg) = msg
   \<and> NewWPASupplicantCtrl_events msgs = map spec_classify msgs
   \<and> map WPAString (NewWPASupplicantCtrl_events msgs) = msgs"
proof -
  have wrap: "map WPAString (map classify msgs) = msgs"
    by (induction msgs) (simp_all add: WPAString_classify)
  have tab: "map classify msgs = map spec_classify msgs"
    by (induction msgs) (simp_all add: classify_spec)
  from wrap have "map WPAString (NewWPASupplicantCtrl_events msgs) = msgs"
    by (simp only: events_map)
  moreover from tab have "NewWPASupplicantCtrl_events msgs = map spec_classify msgs"
    by (simp only: events_map)
  ultimately show ?thesis
    using classify_spec [of msg] WPAString_classify [of msg] by blast
qed

section \<open>Replies and errors of commands\<close>

text \<open>
  C6. When the reply that \<open>Command\<close> receives is \<open>OK\<close>, \<open>OkCommand\<close> returns no
  error; for any other reply, \<open>FAIL\<close> among them, it returns an error whose text is the
  reply.
\<close>

theorem OkCommand_reply:
  assumes "fst (Command wc cmd werr rs) = Inr (Inr R)"
  shows "(R = ''OK'' \<longrightarrow> fst (OkCommand wc cmd werr rs) = Inr None)
       \<and> (R \<noteq> ''OK'' \<longrightarrow>
            (\<exists>err. fst (OkCommand wc cmd werr rs) = Inr (Some err) \<and> Error err = R))
       \<and> snd (OkCommand wc cmd werr rs) = snd (Command wc cmd werr rs)"
proof -
  obtain wc' where c: "Command wc cmd werr rs = (Inr (Inr R), wc')"
    using assms by (cases "Command wc cmd werr rs") simp
  show ?thesis
    by (simp add: OkCommand_def c)
qed

theorem OkCommand_reply_witness:
  "fst (Command NewWPACtrl ''TEST_CMD'' None [Datagram ''OK'']) = Inr (Inr ''OK'')
   \<and> fst (OkCommand NewWPACtrl ''TEST_CMD'' None [Datagram ''OK'']) = Inr None
   \<and> fst (Command NewWPACtrl ''TEST_BAD_CMD'' None [Datagram ''FAIL'']) = Inr (Inr ''FAIL'')
   \<and> (\<exists>err. fst (OkCommand NewWPACtrl ''TEST_BAD_CMD'' None [Datagram ''FAIL'']) = Inr (Some err)
          \<and> Error err = ''FAIL'')"
proof -
  have ok: "fst (Command NewWPACtrl ''TEST_CMD'' None [Datagram ''OK'']) = Inr (Inr ''OK'')"
    by code_simp
  have fail: "fst (Command NewWPACtrl ''TEST_BAD_CMD'' None [Datagram ''FAIL'']) = Inr (Inr ''FAIL'')"
    by code_simp
  have ne: "''FAIL'' \<noteq> ''OK''"
    by simp
  from OkCommand_reply [OF ok] OkCommand_reply [OF fail] ok fail ne show ?thesis
    by blast
qed

text \<open>
  C7. When the reply that \<open>Command\<close> receives is \<open>FAIL\<close>, \<open>FailCommand\<close> returns an
  error; any other reply, \<open>OK\<close> among them, is returned as it is, without an error.
\<close>

theorem FailCommand_reply:
  assumes "fst (Command wc cmd werr rs) = Inr (Inr R)"
  shows "(R = ''FAIL'' \<longrightarrow> (\<exists>err. fst (FailCommand wc cmd werr rs) = Inr (Inl err)))
       \<and> (R \<noteq> ''FAIL'' \<longrightarrow> fst (FailCommand wc cmd werr rs) = Inr (Inr R))
       \<and> snd (FailCommand wc cmd werr rs) = snd (Command wc cmd werr rs)"
proof -
  obtain wc' where c: "Command wc cmd werr rs = (Inr (Inr R), wc')"
    using assms by (cases "Command wc cmd werr rs") simp
  show ?thesis
    by (simp add: FailCommand_def c)
qed

theorem FailCommand_reply_witness:
  "fst (Command NewWPACtrl ''TEST_BAD_CMD'' None [Datagram ''FAIL'']) = Inr (Inr ''FAIL'')
   \<and> (\<exists>err. fst (FailCommand NewWPACtrl ''TEST_BAD_CMD'' None [Datagram ''FAIL'']) = Inr (Inl err))
   \<and> fst (Command NewWPACtrl ''ADD_NETWORK'' None [Datagram ''0'']) = Inr (Inr ''0'')
   \<and> fst (FailCommand NewWPACtrl ''ADD_NETWORK'' None [Datagram ''0'']) = Inr (Inr ''0'')"
proof -
  have fail: "fst (Command NewWPACtrl ''TEST_BAD_CMD'' None [Datagram ''FAIL'']) = Inr (Inr ''FAIL'')"
    by code_simp
  have zero: "fst (Command NewWPACtrl ''ADD_NETWORK'' None [Datagram ''0'']) = Inr (Inr ''0'')"
    by code_simp
  have ne: "''0'' \<noteq> ''FAIL''"
    by simp
  from FailCommand_reply [OF fail] FailCommand_reply [OF zero] fail zero ne show ?thesis
    by blast
qed

text \<open>The four cases of the \<open>select\<close> of \<open>Command\<close>.\<close>

lemma receive_iter_Blocked_solicited:
  "receive_iter wc r = Blocked wc' m \<Longrightarrow> solicited wc' = solicited wc"
  by (auto simp: receive_iter_def Let_def send_def deferred_close_def
      split: read_result.splits prod.splits if_splits sum.splits option.splits)

lemma await_reply:
  "queue (solicited wc) = m # q \<Longrightarrow>
     await wc rs = (Inr (Inr m), wc\<lparr>solicited := (solicited wc)\<lparr>queue := q\<rparr>\<rparr>)"
  by (simp add: await.simps [of wc rs])

lemma await_closed:
  "queue (solicited wc) = [] \<Longrightarrow> is_closed (solicited wc) \<Longrightarrow>
     await wc rs = (Inr (Inl (errorString ''failed'')), wc)"
  by (simp add: await.simps [of wc rs])

lemma await_Nil:
  "queue (solicited wc) = [] \<Longrightarrow> \<not> is_closed (solicited wc) \<Longrightarrow>
     await wc [] = (Inr (Inl ErrTimeout), wc)"
  by (simp add: await.simps [of wc "[]"])

lemma await_Cons:
  "queue (solicited wc) = [] \<Longrightarrow> \<not> is_closed (solicited wc) \<Longrightarrow>
     await wc (r # rs) =
       (case receive_iter wc r of
          Continue wc' \<Rightarrow> await wc' rs
        | Return wc' \<Rightarrow> await wc' rs
        | Blocked wc' m \<Rightarrow> (Inr (Inl ErrTimeout), wc')
        | Panic p \<Rightarrow> (Inl p, wc))"
  by (simp add: await.simps [of wc "r # rs"])

lemmas await_unfold = await_reply await_closed await_Nil await_Cons

lemma await_failed:
  "fst (await wc rs) = Inr (Inl (errorString ''failed'')) \<Longrightarrow>
     is_closed (solicited (snd (await wc rs)))"
proof (induction wc rs rule: await.induct)
  case (1 wc rs)
  show ?case
  proof (cases "queue (solicited wc)")
    case (Cons m q)
    with "1.prems" show ?thesis by (simp add: await_unfold)
  next
    case Nil
    note q = this
    show ?thesis
    proof (cases "is_closed (solicited wc)")
      case True
      with q show ?thesis by (simp add: await_unfold)
    next
      case False
      note o = this
      show ?thesis
      proof (cases rs)
        case Nil
        with q o "1.prems" show ?thesis by (simp add: await_unfold)
      next
        case (Cons r rs')
        note rs = this
        show ?thesis
        proof (cases "receive_iter wc r")
          case (Continue wc')
          with q o rs "1.prems" "1.IH"(1) [OF q o rs Continue] show ?thesis
            by (simp add: await_unfold)
        next
          case (Return wc')
          with q o rs "1.prems" "1.IH"(2) [OF q o rs Return] show ?thesis
            by (simp add: await_unfold)
        next
          case (Blocked wc' m)
          with q o rs "1.prems" show ?thesis
            by (simp add: await_unfold)
        next
          case (Panic p)
          with q o rs "1.prems" show ?thesis
            by (simp add: await_unfold)
        qed
      qed
    qed
  qed
qed

lemma await_timeout:
  "fst (await wc rs) = Inr (Inl ErrTimeout) \<Longrightarrow>
     \<not> is_closed (solicited (snd (await wc rs)))"
proof (induction wc rs rule: await.induct)
  case (1 wc rs)
  show ?case
  proof (cases "queue (solicited wc)")
    case (Cons m q)
    with "1.prems" show ?thesis by (simp add: await_unfold)
  next
    case Nil
    note q = this
    show ?thesis
    proof (cases "is_closed (solicited wc)")
      case True
      with q "1.prems" show ?thesis by (simp add: await_unfold)
    next
      case False
      note o = this
      show ?thesis
      proof (cases rs)
        case Nil
        with q o show ?thesis by (simp add: await_unfold)
      next
        case (Cons r rs')
        note rs = this
        show ?thesis
        proof (cases "receive_iter wc r")
          case (Continue wc')
          with q o rs "1.prems" "1.IH"(1) [OF q o rs Continue] show ?thesis
            by (simp add: await_unfold)
        next
          case (Return wc')
          with q o rs "1.prems" "1.IH"(2) [OF q o rs Return] show ?thesis
            by (simp add: await_unfold)
        next
          case (Blocked wc' m)
          with q o rs receive_iter_Blocked_solicited [OF Blocked] show ?thesis
            by (simp add: await_unfold)
        next
          case (Panic p)
          with q o rs "1.prems" show ?thesis
            by (simp add: await_unfold)
        qed
      qed
    qed
  qed
qed

lemma await_error:
  "fst (await wc rs) = Inr (Inl e) \<Longrightarrow> e = errorString ''failed'' \<or> e = ErrTimeout"
proof (induction wc rs rule: await.induct)
  case (1 wc rs)
  show ?case
  proof (cases "queue (solicited wc)")
    case (Cons m q)
    with "1.prems" show ?thesis by (simp add: await_unfold)
  next
    case Nil
    note q = this
    show ?thesis
    proof (cases "is_closed (solicited wc)")
      case True
      with q "1.prems" show ?thesis by (simp add: await_unfold)
    next
      case False
      note o = this
      show ?thesis
      proof (cases rs)
        case Nil
        with q o "1.prems" show ?thesis by (simp add: await_unfold)
      next
        case (Cons r rs')
        note rs = this
        show ?thesis
        proof (cases "receive_iter wc r")
          case (Continue wc')
          with q o rs "1.prems" "1.IH"(1) [OF q o rs Continue] show ?thesis
            by (simp add: await_unfold)
        next
          case (Return wc')
          with q o rs "1.prems" "1.IH"(2) [OF q o rs Return] show ?thesis
            by (simp add: await_unfold)
        next
          case (Blocked wc' m)
          with q o rs "1.prems" show ?thesis
            by (simp add: await_unfold)
        next
          case (Panic p)
          with q o rs "1.prems" show ?thesis
            by (simp add: await_unfold)
        qed
      qed
    qed
  qed
qed

lemma send_trimmed:
  "send ch m = Inr (Some ch') \<Longrightarrow> list_all trimmed (queue ch) \<Longrightarrow> trimmed m \<Longrightarrow>
     list_all trimmed (queue ch')"
  by (auto simp: send_def split: if_splits)

lemma receive_iter_solicited:
  assumes "list_all trimmed (queue (solicited wc))"
  shows "case receive_iter wc r of
           Continue wc' \<Rightarrow> list_all trimmed (queue (solicited wc'))
         | Return wc' \<Rightarrow> list_all trimmed (queue (solicited wc'))
         | Blocked wc' m \<Rightarrow> list_all trimmed (queue (solicited wc'))
         | Panic p \<Rightarrow> True"
proof (cases r)
  case ReadErr
  with assms show ?thesis
    by (simp add: receive_iter_def deferred_close_def close_def)
next
  case (Datagram msg)
  obtain n b where cr: "conn_Read (buf wc) msg = (n, b)"
    by (cases "conn_Read (buf wc) msg")
  show ?thesis
  proof (cases "ctx_done wc")
    case True
    with assms Datagram cr show ?thesis
      by (simp add: receive_iter_def deferred_close_def close_def Let_def)
  next
    case False
    note live = this
    show ?thesis
    proof (cases "b ! 0 = CHR ''<''")
      case True
      with assms Datagram cr live show ?thesis
        by (simp add: receive_iter_def send_def Let_def)
    next
      case False
      have "trimmed (TrimSpace (take n b))"
        by (rule trimmed_TrimSpace)
      with False assms Datagram cr live show ?thesis
        by (simp add: receive_iter_def send_def Let_def)
    qed
  qed
qed

lemma await_trimmed:
  "list_all trimmed (queue (solicited wc)) \<Longrightarrow>
     list_all trimmed (queue (solicited (snd (await wc rs))))
     \<and> (\<forall>R. fst (await wc rs) = Inr (Inr R) \<longrightarrow> trimmed R)"
proof (induction wc rs rule: await.induct)
  case (1 wc rs)
  show ?case
  proof (cases "queue (solicited wc)")
    case (Cons m q)
    with "1.prems" show ?thesis by (simp add: await_unfold)
  next
    case Nil
    note q = this
    show ?thesis
    proof (cases "is_closed (solicited wc)")
      case True
      with q "1.prems" show ?thesis by (simp add: await_unfold)
    next
      case False
      note o = this
      show ?thesis
      proof (cases rs)
        case Nil
        with q o "1.prems" show ?thesis by (simp add: await_unfold)
      next
        case (Cons r rs')
        note rs = this
        note step = receive_iter_solicited [OF "1.prems", of r]
        show ?thesis
        proof (cases "receive_iter wc r")
          case (Continue wc')
          with step have "list_all trimmed (queue (solicited wc'))" by simp
          with q o rs Continue "1.IH"(1) [OF q o rs Continue] show ?thesis
            by (simp add: await_unfold)
        next
          case (Return wc')
          with step have "list_all trimmed (queue (solicited wc'))" by simp
          with q o rs Return "1.IH"(2) [OF q o rs Return] show ?thesis
            by (simp add: await_unfold)
        next
          case (Blocked wc' m)
          with step have "list_all trimmed (queue (solicited wc'))" by simp
          with q o rs Blocked show ?thesis
            by (simp add: await_unfold)
        next
          case (Panic p)
          with q o rs "1.prems" show ?thesis
            by (simp add: await_unfold)
        qed
      qed
    qed
  qed
qed

lemma Command_trimmed:
  assumes "list_all trimmed (queue (solicited wc))"
  shows "list_all trimmed (queue (solicited (snd (Command wc cmd werr rs))))"
    and "fst (Command wc cmd werr rs) = Inr (Inr R) \<Longrightarrow> trimmed R"
  using assms await_trimmed [OF assms, of rs]
  by (cases werr; simp add: Command_def)+

lemma Command_reply_datagram:
  assumes "length (buf wc) = 4096" "\<not> ctx_done wc"
    and "queue (solicited wc) = []" "\<not> is_closed (solicited wc)" "0 < capacity (solicited wc)"
    and "d \<noteq> []" "d ! 0 \<noteq> CHR ''<''"
  shows "fst (Command wc cmd None (Datagram d # rs)) = Inr (Inr (TrimSpace (take 4096 d)))"
proof -
  have "receive_iter wc (Datagram d) =
     Continue (wc\<lparr>buf := take 4096 d @ drop (length d) (buf wc),
                   solicited := (solicited wc)\<lparr>queue := [TrimSpace (take 4096 d)]\<rparr>\<rparr>)"
    using receive_iter_reply [OF assms(1,2,4,6,7)] assms(3,5) by simp
  then show ?thesis
    using assms(3,4) by (simp add: Command_def await_unfold)
qed

text \<open>
  C8. A command that finds the reply channel closed and empty, or that waits while the reader
  returns (a failed \<open>Read\<close>, or a cancelled context) and so closes the channel, returns
  the error made from the text \<open>failed\<close>: it neither waits for ever nor reports a timeout.
  That error is not \<open>ErrTimeout\<close> and does not have its text, and among the errors of
  \<open>Command\<close> it is the one that is returned exactly when nothing went wrong in \<open>Write\<close>
  and the reply channel is closed when the command returns: an error of \<open>Write\<close> and a
  timeout are other errors.
\<close>

theorem Command_closed_error:
  "(queue (solicited wc) = [] \<and> is_closed (solicited wc) \<longrightarrow>
      fst (Command wc cmd None rs) = Inr (Inl (errorString ''failed'')))
   \<and> (queue (solicited wc) = [] \<and> \<not> is_closed (solicited wc) \<and> (r = ReadErr \<or> ctx_done wc) \<longrightarrow>
      fst (Command wc cmd None (r # rs)) = Inr (Inl (errorString ''failed'')))
   \<and> errorString ''failed'' \<noteq> ErrTimeout
   \<and> Error (errorString ''failed'') \<noteq> Error ErrTimeout
   \<and> (fst (Command wc cmd werr rs) = Inr (Inl e) \<longrightarrow>
        (e = errorString ''failed'')
          = (werr = None \<and> is_closed (solicited (snd (Command wc cmd werr rs)))))"
proof -
  have a: "fst (Command wc cmd None rs) = Inr (Inl (errorString ''failed''))"
    if "queue (solicited wc) = []" "is_closed (solicited wc)"
    using that by (simp add: Command_def await_unfold)
  have b: "fst (Command wc cmd None (r # rs)) = Inr (Inl (errorString ''failed''))"
    if "queue (solicited wc) = []" "\<not> is_closed (solicited wc)" "r = ReadErr \<or> ctx_done wc"
  proof -
    have "\<exists>wc'. receive_iter wc r = Return wc'
            \<and> queue (solicited wc') = [] \<and> is_closed (solicited wc')"
    proof (cases r)
      case ReadErr
      with that(1) show ?thesis
        by (simp add: receive_iter_def deferred_close_def close_def)
    next
      case (Datagram msg)
      with that(3) have cancelled: "ctx_done wc" by simp
      obtain n b where "conn_Read (buf wc) msg = (n, b)"
        by (cases "conn_Read (buf wc) msg")
      with Datagram cancelled that(1) show ?thesis
        by (simp add: receive_iter_def deferred_close_def close_def Let_def)
    qed
    then obtain wc' where ret: "receive_iter wc r = Return wc'"
      and q: "queue (solicited wc') = []" and c: "is_closed (solicited wc')"
      by blast
    from that(1,2) ret have "await wc (r # rs) = await wc' rs"
      by (simp add: await_unfold)
    with q c show ?thesis
      by (simp add: Command_def await_unfold)
  qed
  have c: "(e = errorString ''failed'')
          = (werr = None \<and> is_closed (solicited (snd (Command wc cmd werr rs))))"
    if h: "fst (Command wc cmd werr rs) = Inr (Inl e)"
  proof (cases werr)
    case (Some err)
    with h show ?thesis by (auto simp: Command_def)
  next
    case None
    with h have aw: "fst (await wc rs) = Inr (Inl e)"
      by (simp add: Command_def)
    from await_error [OF aw] show ?thesis
    proof
      assume "e = errorString ''failed''"
      with aw await_failed [of wc rs] None show ?thesis
        by (simp add: Command_def)
    next
      assume "e = ErrTimeout"
      with aw await_timeout [of wc rs] None show ?thesis
        by (simp add: Command_def)
    qed
  qed
  from a b c show ?thesis
    by auto
qed

theorem Command_closed_error_witness:
  "queue (solicited (deferred_close NewWPACtrl)) = []
   \<and> is_closed (solicited (deferred_close NewWPACtrl))
   \<and> fst (Command (deferred_close NewWPACtrl) ''PING'' None []) = Inr (Inl (errorString ''failed''))
   \<and> queue (solicited NewWPACtrl) = [] \<and> \<not> is_closed (solicited NewWPACtrl)
   \<and> fst (Command NewWPACtrl ''PING'' None [ReadErr]) = Inr (Inl (errorString ''failed''))
   \<and> fst (Command NewWPACtrl ''PING'' None []) = Inr (Inl ErrTimeout)
   \<and> \<not> is_closed (solicited (snd (Command NewWPACtrl ''PING'' None [])))"
proof -
  have c: "queue (solicited (deferred_close NewWPACtrl)) = []
      \<and> is_closed (solicited (deferred_close NewWPACtrl))"
    by (simp add: deferred_close_def close_def NewWPACtrl_def make_chan_def)
  have o: "queue (solicited NewWPACtrl) = [] \<and> \<not> is_closed (solicited NewWPACtrl)"
    by (simp add: NewWPACtrl_def make_chan_def)
  have t: "fst (Command NewWPACtrl ''PING'' None []) = Inr (Inl ErrTimeout)"
    using o by (simp add: Command_def await_unfold)
  have 1: "fst (Command (deferred_close NewWPACtrl) ''PING'' None []) = Inr (Inl (errorString ''failed''))"
    using Command_closed_error [where wc = "deferred_close NewWPACtrl" and cmd = "''PING''" and rs = "[]"] c by blast
  have 2: "fst (Command NewWPACtrl ''PING'' None [ReadErr]) = Inr (Inl (errorString ''failed''))"
    using Command_closed_error [where wc = NewWPACtrl and r = ReadErr and cmd = "''PING''" and rs = "[]"] o by blast
  have 3: "\<not> is_closed (solicited (snd (Command NewWPACtrl ''PING'' None [])))"
    using Command_closed_error [where wc = NewWPACtrl and cmd = "''PING''" and rs = "[]" and werr = None
        and e = ErrTimeout] t by simp
  from c o t 1 2 3 show ?thesis
    by blast
qed

text \<open>
  C9. Replies are trimmed like events. If every reply in the channel is trimmed, which holds
  of a new connection, then after a command this is still so and the reply the command
  returns, if any, neither starts nor ends with white space. A command that waits while the
  reader gets a datagram that is not empty and does not start with \<open><\<close> returns that
  datagram trimmed. So a reply \<open>OK\<close> followed by a newline is \<open>OK\<close> for \<open>OkCommand\<close>.
\<close>

theorem replies_trimmed:
  "(list_all trimmed (queue (solicited wc)) \<longrightarrow>
      list_all trimmed (queue (solicited (snd (Command wc cmd werr rs))))
      \<and> (fst (Command wc cmd werr rs) = Inr (Inr R) \<longrightarrow> trimmed R \<and> TrimSpace R = R))
   \<and> (length (buf wc) = 4096 \<and> \<not> ctx_done wc
        \<and> queue (solicited wc) = [] \<and> \<not> is_closed (solicited wc) \<and> 0 < capacity (solicited wc)
        \<and> d \<noteq> [] \<and> d ! 0 \<noteq> CHR ''<'' \<longrightarrow>
      fst (Command wc cmd None (Datagram d # rs)) = Inr (Inr (TrimSpace (take 4096 d)))
      \<and> trimmed (TrimSpace (take 4096 d)))
   \<and> list_all trimmed (queue (solicited NewWPACtrl))
   \<and> fst (OkCommand NewWPACtrl ''TEST_CMD'' None [Datagram (''OK'' @ [CHR 0x0A])]) = Inr None"
proof -
  have a: "list_all trimmed (queue (solicited (snd (Command wc cmd werr rs))))
      \<and> (fst (Command wc cmd werr rs) = Inr (Inr R) \<longrightarrow> trimmed R \<and> TrimSpace R = R)"
    if "list_all trimmed (queue (solicited wc))"
    using Command_trimmed [OF that, of cmd werr rs] TrimSpace_trimmed [of R] by blast
  have b: "fst (Command wc cmd None (Datagram d # rs)) = Inr (Inr (TrimSpace (take 4096 d)))
      \<and> trimmed (TrimSpace (take 4096 d))"
    if "length (buf wc) = 4096" "\<not> ctx_done wc"
      "queue (solicited wc) = []" "\<not> is_closed (solicited wc)" "0 < capacity (solicited wc)"
      "d \<noteq> []" "d ! 0 \<noteq> CHR ''<''"
    using Command_reply_datagram [OF that] trimmed_TrimSpace by blast
  have c: "list_all trimmed (queue (solicited NewWPACtrl))"
    by (simp add: NewWPACtrl_def make_chan_def)
  have e: "fst (OkCommand NewWPACtrl ''TEST_CMD'' None [Datagram (''OK'' @ [CHR 0x0A])]) = Inr None"
    by code_simp
  from a b c e show ?thesis
    by blast
qed

theorem replies_trimmed_witness:
  "list_all trimmed (queue (solicited NewWPACtrl))
   \<and> length (buf NewWPACtrl) = 4096 \<and> \<not> ctx_done NewWPACtrl
   \<and> queue (solicited NewWPACtrl) = [] \<and> \<not> is_closed (solicited NewWPACtrl)
   \<and> 0 < capacity (solicited NewWPACtrl)
   \<and> ''PONG '' \<noteq> [] \<and> ''PONG '' ! 0 \<noteq> CHR ''<''
   \<and> fst (Command NewWPACtrl ''PING'' None [Datagram ''PONG '']) = Inr (Inr ''PONG'')
   \<and> trimmed ''PONG''"
proof -
  have h: "length (buf NewWPACtrl) = 4096 \<and> \<not> ctx_done NewWPACtrl
   \<and> queue (solicited NewWPACtrl) = [] \<and> \<not> is_closed (solicited NewWPACtrl)
   \<and> 0 < capacity (solicited NewWPACtrl)
   \<and> ''PONG '' \<noteq> [] \<and> ''PONG '' ! 0 \<noteq> CHR ''<''"
    by (simp add: NewWPACtrl_def make_chan_def)
  have t: "TrimSpace (take 4096 ''PONG '') = ''PONG''"
    by code_simp
  have c: "fst (Command NewWPACtrl ''PING'' None [Datagram ''PONG ''])
            = Inr (Inr (TrimSpace (take 4096 ''PONG '')))"
    using replies_trimmed [of NewWPACtrl "''PING''" _ "[]" _ "''PONG ''"] h by blast
  have l: "list_all trimmed (queue (solicited NewWPACtrl))"
    using replies_trimmed by blast
  from l c have "trimmed (TrimSpace (take 4096 ''PONG ''))"
    using replies_trimmed [of NewWPACtrl "''PING''" None "[Datagram ''PONG '']"
        "TrimSpace (take 4096 ''PONG '')"] by blast
  with l h c show ?thesis
    unfolding t by blast
qed

section \<open>Parsing the list of networks\<close>

lemma Split_nonempty: "Split s sep \<noteq> []"
proof -
  have "split_from sep cur s \<noteq> []" for cur
    by (induction s arbitrary: cur) simp_all
  then show ?thesis by (simp add: Split_def)
qed

text \<open>
  Lines that all have two fields are parsed in order, one network a line; a line with fewer
  fields is a panic.
\<close>

lemma parse_networks_wellformed:
  "list_all (\<lambda>l. 2 \<le> length (Split l (CHR 0x09))) lines \<Longrightarrow>
     parse_networks lines
       = Inr (map (\<lambda>l. \<lparr>ID = Split l (CHR 0x09) ! 0, SSID = Split l (CHR 0x09) ! 1\<rparr>) lines)"
  by (induction lines) (simp_all add: index_def Let_def Split_nonempty)

lemma parse_networks_malformed:
  "list_ex (\<lambda>l. length (Split l (CHR 0x09)) < 2) lines \<Longrightarrow>
     parse_networks lines = Inl IndexOutOfRange"
proof (induction lines)
  case Nil
  then show ?case by simp
next
  case (Cons l lines)
  show ?case
  proof (cases "length (Split l (CHR 0x09)) < 2")
    case True
    moreover have "Split l (CHR 0x09) \<noteq> []"
      by (rule Split_nonempty)
    ultimately show ?thesis
      by (simp add: index_def Let_def)
  next
    case False
    with Cons have "parse_networks lines = Inl IndexOutOfRange"
      by simp
    with False show ?thesis
      by (simp add: index_def Let_def)
  qed
qed

text \<open>
  C2. \<open>ListNetworks\<close> does not return a parse error for a line with fewer than two fields:
  \<open>f[1]\<close> is read without a test of the length of \<open>f\<close>, and the call panics. Here the
  reply is the header and the line \<open>0\<close>. A reply whose lines are well formed is parsed as
  the claim says.
\<close>

theorem ListNetworks_short_line_panics:
  "fst (ListNetworks NewWPACtrl None
          [Datagram (''network id / ssid / bssid / flags'' @ [CHR 0x0A] @ ''0'')])
     = Inl IndexOutOfRange
   \<and> fst (ListNetworks NewWPACtrl None
          [Datagram (''network id / ssid / bssid / flags'' @ [CHR 0x0A]
                     @ ''0'' @ [CHR 0x09] @ ''foossid'' @ [CHR 0x09, CHR 0x09] @ ''[]'')])
     = Inr (Inr [\<lparr>ID = ''0'', SSID = ''foossid''\<rparr>])"
  by code_simp

section \<open>The network lookup of the mock daemon\<close>

text \<open>The indices that \<open>getNetwork\<close> turns down, and the requests that fail for them.\<close>

lemma getNetwork_rejects:
  "i < 0 \<or> int (length (networks w)) < i \<Longrightarrow> getNetwork w i = Inr None"
  by (simp add: getNetwork_def)

lemma getNetwork_accepts:
  "0 \<le> i \<Longrightarrow> i < int (length (networks w)) \<Longrightarrow> getNetwork w i = Inr (networks w ! nat i)"
  by (simp add: getNetwork_def index_def)

text \<open>
  C10. \<open>getNetwork\<close> does not turn down the index equal to the number of networks: its
  test is \<open>id > len(w.networks)\<close>, and \<open>w.networks[id]\<close> panics. A mock without
  networks panics on a request for network 0, and a mock with one network on a request for
  network 1.
\<close>

theorem getNetwork_length_panics:
  "getNetwork w (int (length (networks w))) = Inl IndexOutOfRange
   \<and> processMockCommand NewWPAProcessMock ''REMOVE_NETWORK 0'' = Inl IndexOutOfRange
   \<and> processMockCommand NewWPAProcessMock ''ENABLE_NETWORK 0'' = Inl IndexOutOfRange
   \<and> processMockCommand NewWPAProcessMock ''SET_NETWORK 0 ssid x'' = Inl IndexOutOfRange
   \<and> processMockCommand
        (NewWPAProcessMock\<lparr>networks := [Some \<lparr>id_net = 0, ssid = [], psk = [], flags = []\<rparr>]\<rparr>)
        ''REMOVE_NETWORK 1'' = Inl IndexOutOfRange
   \<and> processMockCommand NewWPAProcessMock ''REMOVE_NETWORK 1'' = Inr (''FAIL'', NewWPAProcessMock)"
proof -
  have "getNetwork w (int (length (networks w))) = Inl IndexOutOfRange"
    by (simp add: getNetwork_def index_def)
  moreover have "processMockCommand NewWPAProcessMock ''REMOVE_NETWORK 0'' = Inl IndexOutOfRange"
    by code_simp
  moreover have "processMockCommand NewWPAProcessMock ''ENABLE_NETWORK 0'' = Inl IndexOutOfRange"
    by code_simp
  moreover have "processMockCommand NewWPAProcessMock ''SET_NETWORK 0 ssid x'' = Inl IndexOutOfRange"
    by code_simp
  moreover have "processMockCommand
        (NewWPAProcessMock\<lparr>networks := [Some \<lparr>id_net = 0, ssid = [], psk = [], flags = []\<rparr>]\<rparr>)
        ''REMOVE_NETWORK 1'' = Inl IndexOutOfRange"
    by code_simp
  moreover have "processMockCommand NewWPAProcessMock ''REMOVE_NETWORK 1''
      = Inr (''FAIL'', NewWPAProcessMock)"
    by code_simp
  ultimately show ?thesis
    by (intro conjI)
qed

end
